theory Spec2Isabelle
  imports Complex_Main
begin

section \<open>Data model (Server/db.py)\<close>

text \<open>
  The six tables of \<^verbatim>\<open>db.py\<close>. A table is the list of its rows in retrieval order; a new row
  is appended. The integer surrogate key \<^verbatim>\<open>id\<close> of a table is never read by the server: a row
  is identified by its position in the list, which is what an ORM object loaded from the
  table refers to. The natural keys (\<^verbatim>\<open>ActiveToken.token\<close>, \<^verbatim>\<open>ActiveUser.steam_id\<close>) are
  fields. Timestamps are the values of \<^verbatim>\<open>time.time()\<close>, taken as real numbers. Python's
  integers are unbounded: \<open>int\<close>.
\<close>

record for_sale_item =
  fs_def_name :: string
  fs_quantity :: int
  fs_price :: int
  fs_player_name :: string
  fs_seller_steam_id :: "string option"
  fs_quality :: string
  fs_listed_at :: real

text \<open>One entry of the list that \<^verbatim>\<open>handle_buy\<close> serialises into \<^verbatim>\<open>SaleHistory.purchased_items\<close>.\<close>

record purchased_item_details =
  pd_DefName :: string
  pd_Quantity :: int
  pd_Price :: int
  pd_PlayerName :: string
  pd_Quality :: string
  pd_seller_steam_id :: "string option"
  pd_seller_name :: string

record sale_history =
  sh_timestamp :: real
  sh_buyer_steam_id :: "string option"
  sh_buyer_name :: "string option"
  sh_purchased_items :: "purchased_item_details list"
  sh_total_cost :: int
  sh_seller_steam_id :: "string option"
  sh_seller_name :: "string option"

record pending_sale =
  ps_seller_steam_id :: "string option"
  ps_buyer_name :: string
  ps_item :: string
  ps_quantity :: int
  ps_price :: int
  ps_total_silver :: int
  ps_timestamp :: real

record active_user =
  au_steam_id :: string
  au_player_name :: string
  au_last_seen :: real

text \<open>
  A bearer string. \<^verbatim>\<open>jwt.encode\<close> and \<^verbatim>\<open>jwt.decode\<close> belong to the PyJWT library, not to this
  repository; a token is represented by what \<^verbatim>\<open>jwt.decode\<close> can tell about it: the key it was
  signed with and the claims it carries, or that it is no JWT at all.
\<close>

record jwt_payload =
  jp_steam_id :: string
  jp_player_name :: string
  jp_exp :: real
  jp_iat :: real
  jp_jti :: string

datatype bearer = Jwt string jwt_payload | Opaque string

record active_token =
  at_token :: bearer
  at_steam_id :: string
  at_player_name :: string
  at_issued_at :: real
  at_expires_at :: real
  at_revoked :: int

record user_session =
  us_steam_id :: string
  us_player_name :: string
  us_session_start :: real
  us_session_end :: "real option"
  us_last_activity :: real
  us_is_active :: bool
  us_user_agent :: "string option"

record db =
  for_sale_items :: "for_sale_item list"
  sales_history :: "sale_history list"
  pending_sales :: "pending_sale list"
  active_users :: "active_user list"
  active_tokens :: "active_token list"
  user_sessions :: "user_session list"

text \<open>
  What a request handler can raise. The first four are the \<^verbatim>\<open>HTTPException(status_code=400)\<close>
  of the handlers, with the values their \<^verbatim>\<open>detail\<close> message is formatted from:
  \<^item> \<open>ItemUnavailable d s\<close>: "Item d from s is no longer available";
  \<^item> \<open>InsufficientStock d q a\<close>: "Not enough d available. Requested: q, Available: a";
  \<^item> \<open>InsufficientFunds c s\<close>: "Not enough silver. Required: c, You have: s";
  \<^item> \<open>InvalidIndex\<close>: "Invalid item index".
  The others are exceptions no handler catches: Python's \<^verbatim>\<open>IndexError\<close> and SQLAlchemy's
  \<^verbatim>\<open>MultipleResultsFound\<close> and \<^verbatim>\<open>IntegrityError\<close>.
\<close>

datatype error =
    ItemUnavailable string string
  | InsufficientStock string int int
  | InsufficientFunds int int
  | InvalidIndex
  | IndexError
  | MultipleResultsFound
  | IntegrityError

text \<open>
  The clock: \<open>clk n\<close> is what the \<open>n\<close>-th call of \<^verbatim>\<open>time.time()\<close> made by a request returns
  (counting from 0, in program order).
\<close>

type_synonym clock = "nat \<Rightarrow> real"

text \<open>The authenticated caller: the claims \<^verbatim>\<open>get_current_user\<close> hands to a handler.\<close>

record user =
  u_steam_id :: string
  u_player_name :: string

text \<open>Python truthiness of a nullable string column: neither \<^verbatim>\<open>None\<close> nor empty.\<close>

fun truthy :: "string option \<Rightarrow> bool" where
  "truthy None = False"
| "truthy (Some s) = (s \<noteq> [])"

section \<open>Purchase (handle\_buy)\<close>

record buy_item_request =
  bi_def_name :: string
  bi_quantity :: int
  bi_seller_name :: string

record buy_request =
  br_items :: "buy_item_request list"
  br_client_silver :: int

text \<open>
  The list comprehension of both loops:
  \<^verbatim>\<open>[item for item in for_sale_items if item.def_name == def_name and item.player_name == seller_name]\<close>.
\<close>

definition matches :: "buy_item_request \<Rightarrow> for_sale_item \<Rightarrow> bool" where
  "matches r item \<longleftrightarrow> fs_def_name item = bi_def_name r \<and> fs_player_name item = bi_seller_name r"

text \<open>
  First loop ("Validate all purchases first"): reads \<^verbatim>\<open>for_sale_items\<close>, raises at the first
  line that fails, accumulates \<^verbatim>\<open>total_cost\<close>.
\<close>

fun validate_purchases ::
  "for_sale_item list \<Rightarrow> buy_item_request list \<Rightarrow> int \<Rightarrow> error + int" where
  "validate_purchases fsi [] total_cost = Inr total_cost"
| "validate_purchases fsi (r # rs) total_cost =
     (case filter (matches r) fsi of
        [] \<Rightarrow> Inl (ItemUnavailable (bi_def_name r) (bi_seller_name r))
      | item # _ \<Rightarrow>
          if bi_quantity r > fs_quantity item
          then Inl (InsufficientStock (fs_def_name item) (bi_quantity r) (fs_quantity item))
          else validate_purchases fsi rs (total_cost + fs_price item * bi_quantity r))"

text \<open>
  Second loop ("Process purchases"). \<^verbatim>\<open>for_sale_items\<close> is the Python list loaded at the start
  of the request; it is not queried again. Its elements are ORM objects:
  \<^verbatim>\<open>item.quantity -= quantity\<close> changes the object in the list, \<^verbatim>\<open>session.delete(item)\<close> marks
  the object for deletion at commit and leaves it, unchanged, in the list (deleting a marked
  object again does nothing). An object is a row and its deletion mark; \<open>first_match\<close> is the
  position of \<^verbatim>\<open>matching_items[0]\<close> in the list.
\<close>

type_synonym orm_item = "for_sale_item \<times> bool"

fun first_match :: "buy_item_request \<Rightarrow> orm_item list \<Rightarrow> nat option" where
  "first_match r [] = None"
| "first_match r (x # xs) =
     (if matches r (fst x) then Some 0
      else case first_match r xs of None \<Rightarrow> None | Some i \<Rightarrow> Some (Suc i))"

record buy_state =
  bs_objs :: "orm_item list"
  bs_purchased_items :: "purchased_item_details list"
  bs_total_cost :: int
  bs_added :: "pending_sale list"

definition process_line :: "user \<Rightarrow> clock \<Rightarrow> buy_item_request \<Rightarrow> buy_state \<Rightarrow> buy_state" where
  "process_line usr clk r s =
     (case first_match r (bs_objs s) of
        None \<Rightarrow> s
      | Some i \<Rightarrow>
          let item = fst (bs_objs s ! i);
              deleted = snd (bs_objs s ! i);
              quantity = bi_quantity r;
              available_quantity = fs_quantity item;
              item_cost = fs_price item * quantity;
              purchased_item_details =
                \<lparr> pd_DefName = fs_def_name item, pd_Quantity = quantity, pd_Price = fs_price item,
                  pd_PlayerName = fs_player_name item, pd_Quality = fs_quality item,
                  pd_seller_steam_id = fs_seller_steam_id item,
                  pd_seller_name = fs_player_name item \<rparr>;
              objs' =
                (if quantity = available_quantity
                 then (bs_objs s)[i := (item, True)]
                 else (bs_objs s)[i := (item\<lparr>fs_quantity := fs_quantity item - quantity\<rparr>, deleted)])
          in \<lparr> bs_objs = objs',
               bs_purchased_items = bs_purchased_items s @ [purchased_item_details],
               bs_total_cost = bs_total_cost s + item_cost,
               bs_added =
                 (if truthy (fs_seller_steam_id item)
                  then bs_added s @
                    [\<lparr> ps_seller_steam_id = fs_seller_steam_id item,
                       ps_buyer_name = u_player_name usr,
                       ps_item = fs_def_name item,
                       ps_quantity = quantity,
                       ps_price = fs_price item,
                       ps_total_silver = item_cost,
                       ps_timestamp = clk (length (bs_added s)) \<rparr>]
                  else bs_added s) \<rparr>)"

fun process_purchases ::
  "user \<Rightarrow> clock \<Rightarrow> buy_item_request list \<Rightarrow> buy_state \<Rightarrow> buy_state" where
  "process_purchases usr clk [] s = s"
| "process_purchases usr clk (r # rs) s = process_purchases usr clk rs (process_line usr clk r s)"

text \<open>What \<^verbatim>\<open>handle_buy\<close> returns on success.\<close>

record buy_response =
  resp_purchased_items :: "purchased_item_details list"
  resp_total_cost :: int

text \<open>
  The handler. A raised \<^verbatim>\<open>HTTPException\<close> leaves the \<^verbatim>\<open>async with\<close> block before
  \<^verbatim>\<open>session.commit()\<close>: the store is the one the request found. At commit the marked objects
  are deleted, the others keep the quantity the loop left in them, the new \<^verbatim>\<open>PendingSale\<close>
  rows and the one \<^verbatim>\<open>SaleHistory\<close> row are inserted.
\<close>

definition handle_buy :: "user \<Rightarrow> clock \<Rightarrow> buy_request \<Rightarrow> db \<Rightarrow> db \<times> (error + buy_response)" where
  "handle_buy usr clk data d =
     (case validate_purchases (for_sale_items d) (br_items data) 0 of
        Inl e \<Rightarrow> (d, Inl e)
      | Inr total_cost \<Rightarrow>
          if br_client_silver data < total_cost
          then (d, Inl (InsufficientFunds total_cost (br_client_silver data)))
          else
            let s = process_purchases usr clk (br_items data)
                      \<lparr> bs_objs = map (\<lambda>item. (item, False)) (for_sale_items d),
                        bs_purchased_items = [], bs_total_cost = 0, bs_added = [] \<rparr>;
                sale_record =
                  \<lparr> sh_timestamp = clk (length (bs_added s)),
                    sh_buyer_steam_id = Some (u_steam_id usr),
                    sh_buyer_name = Some (u_player_name usr),
                    sh_purchased_items = bs_purchased_items s,
                    sh_total_cost = bs_total_cost s,
                    sh_seller_steam_id = None,
                    sh_seller_name = None \<rparr>
            in (d\<lparr> for_sale_items := map fst (filter (\<lambda>x. \<not> snd x) (bs_objs s)),
                   pending_sales := pending_sales d @ bs_added s,
                   sales_history := sales_history d @ [sale_record] \<rparr>,
                Inr \<lparr> resp_purchased_items = bs_purchased_items s,
                      resp_total_cost = bs_total_cost s \<rparr>))"

section \<open>Escrow claim (claim\_sales)\<close>

text \<open>
  Returns \<^verbatim>\<open>total_claimed\<close> and \<^verbatim>\<open>claimed_sales_count\<close>. The selected rows are deleted one by
  one with \<^verbatim>\<open>session.delete(sale)\<close>: exactly the rows of the query leave the table.
\<close>

definition claim_sales :: "user \<Rightarrow> db \<Rightarrow> db \<times> (int \<times> int)" where
  "claim_sales usr d =
     (let user_pending_sales =
            filter (\<lambda>sale. ps_seller_steam_id sale = Some (u_steam_id usr)) (pending_sales d)
      in if user_pending_sales = [] then (d, (0, 0))
         else
           (d\<lparr> pending_sales :=
                 filter (\<lambda>sale. ps_seller_steam_id sale \<noteq> Some (u_steam_id usr)) (pending_sales d) \<rparr>,
            (sum_list (map (\<lambda>sale. ps_price sale * ps_quantity sale) user_pending_sales),
             int (length user_pending_sales))))"

section \<open>Listing removal (remove\_item)\<close>

text \<open>Python's \<^verbatim>\<open>xs[i]\<close>: a negative index counts from the end, out of range raises.\<close>

definition py_index :: "'a list \<Rightarrow> int \<Rightarrow> error + 'a" where
  "py_index xs i =
     (let n = int (length xs)
      in if 0 \<le> i \<and> i < n then Inr (xs ! nat i)
         else if - n \<le> i \<and> i < 0 then Inr (xs ! nat (n + i))
         else Inl IndexError)"

text \<open>
  \<^verbatim>\<open>my_items\<close> is the result of the query on \<^verbatim>\<open>seller_steam_id\<close>, here the positions of its rows
  in the table; \<^verbatim>\<open>session.delete(item)\<close> deletes the row at the position chosen. The handler
  returns the fields of the removed row.
\<close>

definition remove_item :: "user \<Rightarrow> int \<Rightarrow> db \<Rightarrow> db \<times> (error + for_sale_item)" where
  "remove_item usr item_index d =
     (let fsi = for_sale_items d;
          my_items = filter (\<lambda>p. fs_seller_steam_id (fsi ! p) = Some (u_steam_id usr)) [0..<length fsi]
      in if item_index \<ge> int (length my_items) then (d, Inl InvalidIndex)
         else
           (case py_index my_items item_index of
              Inl e \<Rightarrow> (d, Inl e)
            | Inr p \<Rightarrow> (d\<lparr> for_sale_items := take p fsi @ drop (Suc p) fsi \<rparr>, Inr (fsi ! p))))"

section \<open>Tokens (generate\_jwt\_token, verify\_jwt\_token, logout)\<close>

text \<open>
  The contract of PyJWT with \<^verbatim>\<open>HS256\<close>: \<^verbatim>\<open>jwt.encode\<close> signs the claims with the key;
  \<^verbatim>\<open>jwt.decode\<close> first verifies the signature, raising a subclass of \<^verbatim>\<open>InvalidTokenError\<close> for
  a string that is no JWT or carries another signature, then the claims against the clock:
  \<^verbatim>\<open>int(iat) > now\<close> raises \<^verbatim>\<open>ImmatureSignatureError\<close> (an \<^verbatim>\<open>InvalidTokenError\<close>), then
  \<^verbatim>\<open>int(exp) <= now\<close> raises \<^verbatim>\<open>ExpiredSignatureError\<close>. Python's \<^verbatim>\<open>int\<close> of a float truncates
  towards zero.
\<close>

datatype jwt_error = ExpiredSignatureError | InvalidTokenError

definition jwt_encode :: "jwt_payload \<Rightarrow> string \<Rightarrow> bearer" where
  "jwt_encode payload key = Jwt key payload"

definition py_int :: "real \<Rightarrow> int" where
  "py_int x = (if 0 \<le> x then \<lfloor>x\<rfloor> else \<lceil>x\<rceil>)"

fun jwt_decode :: "real \<Rightarrow> bearer \<Rightarrow> string \<Rightarrow> jwt_error + jwt_payload" where
  "jwt_decode now (Opaque s) key = Inl InvalidTokenError"
| "jwt_decode now (Jwt k payload) key =
     (if k \<noteq> key then Inl InvalidTokenError
      else if real_of_int (py_int (jp_iat payload)) > now then Inl InvalidTokenError
      else if real_of_int (py_int (jp_exp payload)) \<le> now then Inl ExpiredSignatureError
      else Inr payload)"

definition JWT_EXPIRATION_HOURS :: real where
  "JWT_EXPIRATION_HOURS = 24"

text \<open>SQLAlchemy's \<^verbatim>\<open>scalar_one_or_none()\<close>.\<close>

fun scalar_one_or_none :: "'a list \<Rightarrow> error + 'a option" where
  "scalar_one_or_none [] = Inr None"
| "scalar_one_or_none [x] = Inr (Some x)"
| "scalar_one_or_none (x # y # zs) = Inl MultipleResultsFound"

text \<open>
  \<^verbatim>\<open>generate_jwt_token\<close>; \<open>key\<close> is \<^verbatim>\<open>JWT_SECRET_KEY\<close>, \<open>jti\<close> the fresh \<^verbatim>\<open>uuid4\<close>, \<open>user_agent\<close> the
  request header. The query for the existing user flushes the new token row first, and the
  table's primary key refuses a token that is already there.
\<close>

definition generate_jwt_token ::
  "string \<Rightarrow> string \<Rightarrow> clock \<Rightarrow> string \<Rightarrow> string \<Rightarrow> string option \<Rightarrow> db \<Rightarrow> error + db \<times> bearer" where
  "generate_jwt_token key jti clk steam_id player_name user_agent d =
     (let expiration = clk 0 + JWT_EXPIRATION_HOURS * 3600;
          payload = \<lparr> jp_steam_id = steam_id, jp_player_name = player_name, jp_exp = expiration,
                      jp_iat = clk 1, jp_jti = jti \<rparr>;
          token = jwt_encode payload key;
          db_token = \<lparr> at_token = token, at_steam_id = steam_id, at_player_name = player_name,
                       at_issued_at = clk 2, at_expires_at = expiration, at_revoked = 0 \<rparr>
      in if token \<in> set (map at_token (active_tokens d)) then Inl IntegrityError
         else
           (case scalar_one_or_none (filter (\<lambda>u. au_steam_id u = steam_id) (active_users d)) of
              Inl e \<Rightarrow> Inl e
            | Inr existing_user \<Rightarrow>
                let users' =
                      (case existing_user of
                         Some _ \<Rightarrow>
                           map (\<lambda>u. if au_steam_id u = steam_id
                                     then u\<lparr> au_last_seen := clk 3, au_player_name := player_name \<rparr>
                                     else u) (active_users d)
                       | None \<Rightarrow>
                           active_users d @
                             [\<lparr> au_steam_id = steam_id, au_player_name = player_name,
                                au_last_seen = clk 3 \<rparr>]);
                    db_session =
                      \<lparr> us_steam_id = steam_id, us_player_name = player_name,
                        us_session_start = clk 4, us_session_end = None,
                        us_last_activity = clk 5, us_is_active = True,
                        us_user_agent = user_agent \<rparr>
                in Inr (d\<lparr> active_tokens := active_tokens d @ [db_token],
                           active_users := users',
                           user_sessions := user_sessions d @ [db_session] \<rparr>,
                        token)))"

text \<open>
  \<^verbatim>\<open>verify_jwt_token\<close> returns the pair (payload or \<^verbatim>\<open>None\<close>, message). The clock is read by
  \<^verbatim>\<open>jwt.decode\<close> (\<open>clk 0\<close>), for \<^verbatim>\<open>new_expiration\<close> (\<open>clk 1\<close>) and for \<^verbatim>\<open>last_seen\<close> (\<open>clk 2\<close>).
  \<^verbatim>\<open>MultipleResultsFound\<close> is none of the exceptions the function catches.
\<close>

definition verify_jwt_token ::
  "string \<Rightarrow> clock \<Rightarrow> bearer \<Rightarrow> db \<Rightarrow> error + db \<times> (jwt_payload option \<times> string)" where
  "verify_jwt_token key clk token d =
     (case scalar_one_or_none (filter (\<lambda>t. at_token t = token) (active_tokens d)) of
        Inl e \<Rightarrow> Inl e
      | Inr None \<Rightarrow> Inr (d, (None, ''Token has been revoked''))
      | Inr (Some db_token) \<Rightarrow>
          if at_revoked db_token = 1 then Inr (d, (None, ''Token has been revoked''))
          else
            (case jwt_decode (clk 0) token key of
               Inl ExpiredSignatureError \<Rightarrow> Inr (d, (None, ''Token has expired''))
             | Inl InvalidTokenError \<Rightarrow> Inr (d, (None, ''Invalid token''))
             | Inr payload \<Rightarrow>
                 let steam_id = jp_steam_id payload
                 in if steam_id \<noteq> []
                    then
                      let new_expiration = clk 1 + JWT_EXPIRATION_HOURS * 3600
                      in Inr (d\<lparr> active_tokens :=
                                   map (\<lambda>t. if at_token t = token
                                             then t\<lparr> at_expires_at := new_expiration \<rparr> else t)
                                     (active_tokens d),
                                 active_users :=
                                   map (\<lambda>u. if au_steam_id u = steam_id
                                             then u\<lparr> au_last_seen := clk 2 \<rparr> else u)
                                     (active_users d) \<rparr>,
                              (Some (payload\<lparr> jp_exp := new_expiration \<rparr>), ''Valid''))
                    else Inr (d, (Some payload, ''Valid''))))"

text \<open>
  \<^verbatim>\<open>logout\<close>, after \<^verbatim>\<open>get_current_user\<close> has accepted the token: \<open>token\<close> is the bearer string
  of the header, \<open>usr\<close> its claims.
\<close>

definition logout :: "clock \<Rightarrow> bearer \<Rightarrow> user \<Rightarrow> db \<Rightarrow> db" where
  "logout clk token usr d =
     (let steam_id = u_steam_id usr;
          tokens' = map (\<lambda>t. if at_token t = token then t\<lparr> at_revoked := 1 \<rparr> else t)
                      (active_tokens d);
          sessions' = map (\<lambda>s. if us_steam_id s = steam_id \<and> us_is_active s
                                then s\<lparr> us_session_end := Some (clk 0), us_is_active := False \<rparr>
                                else s) (user_sessions d);
          active_tokens_count = filter (\<lambda>t. at_steam_id t = steam_id \<and> at_revoked t = 0) tokens'
      in d\<lparr> active_tokens := tokens',
            user_sessions := sessions',
            active_users :=
              (if length active_tokens_count = 0
               then filter (\<lambda>u. au_steam_id u \<noteq> steam_id) (active_users d)
               else active_users d) \<rparr>)"

section \<open>Sweep (manual\_cleanup, cleanup\_expired\_tokens)\<close>

text \<open>
  The loop over \<^verbatim>\<open>inactive_users\<close> of both sweep functions: delete the tokens of the user, then
  the user (by its primary key).
\<close>

fun remove_inactive ::
  "active_user list \<Rightarrow> active_token list \<times> active_user list \<Rightarrow> active_token list \<times> active_user list" where
  "remove_inactive [] tu = tu"
| "remove_inactive (user_obj # rest) (tokens, users) =
     remove_inactive rest
       (filter (\<lambda>t. at_steam_id t \<noteq> au_steam_id user_obj) tokens,
        filter (\<lambda>u. au_steam_id u \<noteq> au_steam_id user_obj) users)"

text \<open>\<^verbatim>\<open>manual_cleanup\<close> returns \<^verbatim>\<open>inactive_users_removed\<close>; it reads the clock once.\<close>

definition manual_cleanup :: "clock \<Rightarrow> db \<Rightarrow> db \<times> int" where
  "manual_cleanup clk d =
     (let current_time = clk 0;
          tokens1 = filter (\<lambda>t. \<not> at_expires_at t < current_time) (active_tokens d);
          inactive_session_threshold = current_time - 2 * 3600;
          sessions' =
            map (\<lambda>s. if us_last_activity s < inactive_session_threshold \<and> us_is_active s
                      then s\<lparr> us_session_end := Some current_time, us_is_active := False \<rparr>
                      else s) (user_sessions d);
          inactive_threshold = current_time - 24 * 3600;
          inactive_users = filter (\<lambda>u. au_last_seen u < inactive_threshold) (active_users d);
          tu = remove_inactive inactive_users (tokens1, active_users d)
      in (d\<lparr> active_tokens := fst tu, user_sessions := sessions', active_users := snd tu \<rparr>,
          int (length inactive_users)))"

text \<open>
  One turn of the \<^verbatim>\<open>while True\<close> loop of \<^verbatim>\<open>cleanup_expired_tokens\<close>, up to its
  \<^verbatim>\<open>asyncio.sleep(3600)\<close>. The loop itself never returns.
\<close>

definition cleanup_expired_tokens_pass :: "clock \<Rightarrow> db \<Rightarrow> db" where
  "cleanup_expired_tokens_pass clk d =
     (let current_time = clk 0;
          tokens1 = filter (\<lambda>t. \<not> at_expires_at t < current_time) (active_tokens d);
          inactive_session_threshold = current_time - 2 * 3600;
          sessions' =
            map (\<lambda>s. if us_last_activity s < inactive_session_threshold \<and> us_is_active s
                      then s\<lparr> us_session_end := Some current_time, us_is_active := False \<rparr>
                      else s) (user_sessions d);
          inactive_threshold = current_time - 24 * 3600;
          inactive_users = filter (\<lambda>u. au_last_seen u < inactive_threshold) (active_users d);
          tu = remove_inactive inactive_users (tokens1, active_users d)
      in d\<lparr> active_tokens := fst tu, user_sessions := sessions', active_users := snd tu \<rparr>)"

section \<open>Notions used in the statements\<close>

text \<open>
  What the first loop of \<^verbatim>\<open>handle_buy\<close> finds for one line of a batch, read off the listings
  the request loaded: the line resolves to a listing that holds the quantity asked for
  (\<open>line_ok\<close>), what the line costs (\<open>line_cost\<close>), and whether the listing it resolves to
  names its seller (\<open>seller_known\<close>; a line that resolves to nothing has no seller to name).
\<close>

definition line_ok :: "for_sale_item list \<Rightarrow> buy_item_request \<Rightarrow> bool" where
  "line_ok fsi r =
     (case filter (matches r) fsi of [] \<Rightarrow> False | item # _ \<Rightarrow> bi_quantity r \<le> fs_quantity item)"

definition line_cost :: "for_sale_item list \<Rightarrow> buy_item_request \<Rightarrow> int" where
  "line_cost fsi r =
     (case filter (matches r) fsi of [] \<Rightarrow> 0 | item # _ \<Rightarrow> fs_price item * bi_quantity r)"

definition seller_known :: "for_sale_item list \<Rightarrow> buy_item_request \<Rightarrow> bool" where
  "seller_known fsi r =
     (case filter (matches r) fsi of [] \<Rightarrow> True | item # _ \<Rightarrow> truthy (fs_seller_steam_id item))"

text \<open>The columns of a loaded listing that the second loop reads and never writes.\<close>

definition obj_key :: "orm_item \<Rightarrow> string \<times> string \<times> string option" where
  "obj_key x = (fs_def_name (fst x), fs_player_name (fst x), fs_seller_steam_id (fst x))"

definition sellers_ok :: "buy_item_request list \<Rightarrow> orm_item list \<Rightarrow> bool" where
  "sellers_ok rs objs \<longleftrightarrow>
     (\<forall>r\<in>set rs. \<forall>i. first_match r objs = Some i \<longrightarrow> truthy (fs_seller_steam_id (fst (objs ! i))))"

section \<open>Concrete stores and requests\<close>

text \<open>
  The scenario of the specification: Ann lists five iron knives at 10 silver each; Bob buys.
  \<open>orphan_knife\<close> is the same listing without a seller identity.
\<close>

definition empty_db :: db where
  "empty_db = \<lparr> for_sale_items = [], sales_history = [], pending_sales = [], active_users = [],
     active_tokens = [], user_sessions = [] \<rparr>"

definition knife :: for_sale_item where
  "knife = \<lparr> fs_def_name = ''ironKnife'', fs_quantity = 5, fs_price = 10, fs_player_name = ''Ann'',
     fs_seller_steam_id = Some ''steam-ann'', fs_quality = ''Normal'', fs_listed_at = 1000 \<rparr>"

definition orphan_knife :: for_sale_item where
  "orphan_knife = knife\<lparr> fs_seller_steam_id := None \<rparr>"

definition knife_db :: db where
  "knife_db = empty_db\<lparr> for_sale_items := [knife] \<rparr>"

definition orphan_db :: db where
  "orphan_db = empty_db\<lparr> for_sale_items := [orphan_knife] \<rparr>"

definition ann :: user where
  "ann = \<lparr> u_steam_id = ''steam-ann'', u_player_name = ''Ann'' \<rparr>"

definition bob :: user where
  "bob = \<lparr> u_steam_id = ''steam-bob'', u_player_name = ''Bob'' \<rparr>"

definition knife_line :: "int \<Rightarrow> buy_item_request" where
  "knife_line q = \<lparr> bi_def_name = ''ironKnife'', bi_quantity = q, bi_seller_name = ''Ann'' \<rparr>"

definition buy_knives :: "int list \<Rightarrow> int \<Rightarrow> buy_request" where
  "buy_knives qs silver = \<lparr> br_items = map knife_line qs, br_client_silver = silver \<rparr>"

definition noon :: clock where
  "noon = (\<lambda>n. 100000 + real n)"

text \<open>
  A line for an item nobody lists, and an escrow ledger in which Ann is owed 20 and 15 and
  Bob 7.
\<close>

definition steel_line :: buy_item_request where
  "steel_line = \<lparr> bi_def_name = ''steel'', bi_quantity = 1, bi_seller_name = ''Ann'' \<rparr>"

definition owed :: "string \<Rightarrow> int \<Rightarrow> int \<Rightarrow> pending_sale" where
  "owed seller unit_price n =
     \<lparr> ps_seller_steam_id = Some seller, ps_buyer_name = ''Cid'', ps_item = ''ironKnife'',
       ps_quantity = n, ps_price = unit_price, ps_total_silver = unit_price * n,
       ps_timestamp = 2000 \<rparr>"

definition escrow_db :: db where
  "escrow_db = empty_db\<lparr> pending_sales :=
     [owed ''steam-ann'' 10 2, owed ''steam-bob'' 7 1, owed ''steam-ann'' 5 3] \<rparr>"

text \<open>Ann lists knives and, after them, a shield.\<close>

definition shield :: for_sale_item where
  "shield = \<lparr> fs_def_name = ''shield'', fs_quantity = 1, fs_price = 40, fs_player_name = ''Ann'',
     fs_seller_steam_id = Some ''steam-ann'', fs_quality = ''Good'', fs_listed_at = 1500 \<rparr>"

definition two_listings_db :: db where
  "two_listings_db = empty_db\<lparr> for_sale_items := [knife, shield] \<rparr>"

text \<open>
  Invariants of the stores the server builds: the expiry a token row holds is never earlier
  than the \<^verbatim>\<open>exp\<close> claim signed into the token (issuing writes the same value into both,
  validating moves the row's forward), and a session that is not active has its end set
  (sessions are created active and closed with an end).
\<close>

definition exp_within_row :: "active_token \<Rightarrow> bool" where
  "exp_within_row t =
     (case at_token t of Jwt k claims \<Rightarrow> jp_exp claims \<le> at_expires_at t | Opaque s \<Rightarrow> True)"

definition closed_session_ended :: "user_session \<Rightarrow> bool" where
  "closed_session_ended s = (us_is_active s \<or> us_session_end s \<noteq> None)"

text \<open>
  Ann logs in at \<open>noon\<close> (100000 s), which issues \<open>ann_token\<close>; \<open>afternoon\<close> is 50000 s later,
  inside the token's 24 hours, \<open>next_week\<close> long after them. \<open>ann_logged_out\<close> is the store
  after her logout in the afternoon. The ghost is a login under an empty identity.
\<close>

definition secret :: string where
  "secret = ''supersecret''"

definition afternoon :: clock where
  "afternoon = (\<lambda>n. 150000 + real n)"

definition next_week :: clock where
  "next_week = (\<lambda>n. 700000 + real n)"

definition ann_claims :: jwt_payload where
  "ann_claims = \<lparr> jp_steam_id = ''steam-ann'', jp_player_name = ''Ann'', jp_exp = 186400,
     jp_iat = 100001, jp_jti = ''jti-ann'' \<rparr>"

definition ann_token :: bearer where
  "ann_token = Jwt secret ann_claims"

definition ann_row :: active_token where
  "ann_row = \<lparr> at_token = ann_token, at_steam_id = ''steam-ann'', at_player_name = ''Ann'',
     at_issued_at = 100002, at_expires_at = 186400, at_revoked = 0 \<rparr>"

definition ann_session :: user_session where
  "ann_session = \<lparr> us_steam_id = ''steam-ann'', us_player_name = ''Ann'',
     us_session_start = 100004, us_session_end = None, us_last_activity = 100005,
     us_is_active = True, us_user_agent = None \<rparr>"

definition ann_logged_in :: db where
  "ann_logged_in = empty_db\<lparr>
     active_tokens := [ann_row],
     active_users := [\<lparr> au_steam_id = ''steam-ann'', au_player_name = ''Ann'', au_last_seen = 100003 \<rparr>],
     user_sessions := [ann_session] \<rparr>"

definition ann_logged_out :: db where
  "ann_logged_out = empty_db\<lparr>
     active_tokens := [ann_row\<lparr> at_revoked := 1 \<rparr>],
     user_sessions := [ann_session\<lparr> us_session_end := Some 150000, us_is_active := False \<rparr>] \<rparr>"

definition ghost_claims :: jwt_payload where
  "ghost_claims = \<lparr> jp_steam_id = '''', jp_player_name = ''Ghost'', jp_exp = 186400,
     jp_iat = 100001, jp_jti = ''jti-ghost'' \<rparr>"

definition ghost_token :: bearer where
  "ghost_token = Jwt secret ghost_claims"

definition ghost_logged_in :: db where
  "ghost_logged_in = empty_db\<lparr>
     active_tokens :=
       [\<lparr> at_token = ghost_token, at_steam_id = '''', at_player_name = ''Ghost'',
          at_issued_at = 100002, at_expires_at = 186400, at_revoked = 0 \<rparr>],
     active_users := [\<lparr> au_steam_id = '''', au_player_name = ''Ghost'', au_last_seen = 100003 \<rparr>],
     user_sessions :=
       [\<lparr> us_steam_id = '''', us_player_name = ''Ghost'', us_session_start = 100004,
          us_session_end = None, us_last_activity = 100005, us_is_active = True,
          us_user_agent = None \<rparr>] \<rparr>"

lemmas token_example_defs =
  py_int_def empty_db_def noon_def secret_def afternoon_def next_week_def ann_claims_def ann_token_def
  ann_row_def ann_session_def ann_logged_in_def ann_logged_out_def ann_def
  ghost_claims_def ghost_token_def ghost_logged_in_def

text \<open>
  Bob logs in a week after Ann, 1000 s before \<open>next_week\<close>; \<open>swept\<close> is what a sweep at
  \<open>next_week\<close> leaves of the two logins.
\<close>

definition last_night :: clock where
  "last_night = (\<lambda>n. 699000 + real n)"

definition bob_token :: bearer where
  "bob_token = Jwt secret \<lparr> jp_steam_id = ''steam-bob'', jp_player_name = ''Bob'', jp_exp = 785400,
     jp_iat = 699001, jp_jti = ''jti-bob'' \<rparr>"

definition bob_row :: active_token where
  "bob_row = \<lparr> at_token = bob_token, at_steam_id = ''steam-bob'', at_player_name = ''Bob'',
     at_issued_at = 699002, at_expires_at = 785400, at_revoked = 0 \<rparr>"

definition bob_seen :: active_user where
  "bob_seen = \<lparr> au_steam_id = ''steam-bob'', au_player_name = ''Bob'', au_last_seen = 699003 \<rparr>"

definition bob_session :: user_session where
  "bob_session = \<lparr> us_steam_id = ''steam-bob'', us_player_name = ''Bob'',
     us_session_start = 699004, us_session_end = None, us_last_activity = 699005,
     us_is_active = True, us_user_agent = Some ''RimWorld'' \<rparr>"

definition two_logins :: db where
  "two_logins = empty_db\<lparr>
     active_tokens := [ann_row, bob_row],
     active_users :=
       [\<lparr> au_steam_id = ''steam-ann'', au_player_name = ''Ann'', au_last_seen = 100003 \<rparr>, bob_seen],
     user_sessions := [ann_session, bob_session] \<rparr>"

definition swept :: db where
  "swept = empty_db\<lparr>
     active_tokens := [bob_row],
     active_users := [bob_seen],
     user_sessions :=
       [ann_session\<lparr> us_session_end := Some 700000, us_is_active := False \<rparr>, bob_session] \<rparr>"

lemmas sweep_example_defs =
  last_night_def bob_token_def bob_row_def bob_seen_def bob_session_def two_logins_def swept_def

lemmas example_defs =
  empty_db_def knife_def orphan_knife_def knife_db_def orphan_db_def ann_def bob_def
  knife_line_def buy_knives_def noon_def

section \<open>Purchase: quantities\<close>

text \<open>
  C1. A listing in the store has a quantity of at least 1, and no buy leaves a listing with
  a quantity of zero or less, also when several lines of one batch target the same listing.
  The code does not keep this: the first loop checks each line against the quantity the
  listing had when the request started, the second loop subtracts every line. With five
  knives listed, a batch of two lines of three knives each passes the validation, commits,
  and leaves the listing in the store with quantity -1 (and two escrow rows of 30).
\<close>

theorem buy_same_listing_twice_goes_negative:
  "snd (handle_buy bob noon (buy_knives [3, 3] 60) knife_db)
     = Inr \<lparr> resp_purchased_items =
               [\<lparr> pd_DefName = ''ironKnife'', pd_Quantity = 3, pd_Price = 10, pd_PlayerName = ''Ann'',
                   pd_Quality = ''Normal'', pd_seller_steam_id = Some ''steam-ann'',
                   pd_seller_name = ''Ann'' \<rparr>,
                \<lparr> pd_DefName = ''ironKnife'', pd_Quantity = 3, pd_Price = 10, pd_PlayerName = ''Ann'',
                   pd_Quality = ''Normal'', pd_seller_steam_id = Some ''steam-ann'',
                   pd_seller_name = ''Ann'' \<rparr>],
             resp_total_cost = 60 \<rparr>
   \<and> for_sale_items (fst (handle_buy bob noon (buy_knives [3, 3] 60) knife_db))
     = [knife\<lparr> fs_quantity := - 1 \<rparr>]
   \<and> map ps_total_silver (pending_sales (fst (handle_buy bob noon (buy_knives [3, 3] 60) knife_db)))
     = [30, 30]"
  by (simp add: handle_buy_def example_defs matches_def process_line_def Let_def)

text \<open>
  C10. \<^verbatim>\<open>handle_buy\<close> does not ask for a positive quantity. On a store whose one listing holds
  at least one unit and names its seller, a single line for that listing with a quantity of
  zero or less passes the validation and commits: the escrow row carries the quantity asked
  for and price times quantity as proceeds (both 0 for quantity 0), the listing stays with
  its quantity raised by the absolute value of the request, and the cost is price times
  quantity (negative for a negative quantity at a positive price).
\<close>

theorem buy_accepts_nonpositive_quantity:
  assumes "for_sale_items d = [it]" and "matches r it" and "truthy (fs_seller_steam_id it)"
    and "bi_quantity r \<le> 0" and "1 \<le> fs_quantity it"
    and "br_items data = [r]" and "fs_price it * bi_quantity r \<le> br_client_silver data"
  shows "\<exists>d' resp e.
           handle_buy usr clk data d = (d', Inr resp)
         \<and> resp_total_cost resp = fs_price it * bi_quantity r
         \<and> for_sale_items d' = [it\<lparr> fs_quantity := fs_quantity it + \<bar>bi_quantity r\<bar> \<rparr>]
         \<and> pending_sales d' = pending_sales d @ [e]
         \<and> ps_quantity e = bi_quantity r
         \<and> ps_total_silver e = fs_price it * bi_quantity r
         \<and> (bi_quantity r = 0 \<longrightarrow> ps_quantity e = 0 \<and> ps_total_silver e = 0)
         \<and> (bi_quantity r < 0 \<and> 0 < fs_price it \<longrightarrow>
              fs_quantity it < fs_quantity (hd (for_sale_items d')) \<and> resp_total_cost resp < 0)"
  using assms
  by (auto simp add: handle_buy_def process_line_def Let_def mult_pos_neg)

theorem buy_accepts_nonpositive_quantity_witness:
  "(\<exists>d' resp e.
      handle_buy bob noon (buy_knives [0] 0) knife_db = (d', Inr resp)
    \<and> resp_total_cost resp = 0
    \<and> map fs_quantity (for_sale_items d') = [5]
    \<and> pending_sales d' = [e] \<and> ps_quantity e = 0 \<and> ps_total_silver e = 0)
 \<and> (\<exists>d' resp e.
      handle_buy bob noon (buy_knives [- 2] 0) knife_db = (d', Inr resp)
    \<and> resp_total_cost resp = - 20
    \<and> map fs_quantity (for_sale_items d') = [7]
    \<and> pending_sales d' = [e] \<and> ps_quantity e = - 2 \<and> ps_total_silver e = - 20)"
proof -
  have zero: "\<exists>d' resp e.
      handle_buy bob noon (buy_knives [0] 0) knife_db = (d', Inr resp)
    \<and> resp_total_cost resp = 0
    \<and> map fs_quantity (for_sale_items d') = [5]
    \<and> pending_sales d' = [e] \<and> ps_quantity e = 0 \<and> ps_total_silver e = 0"
    using buy_accepts_nonpositive_quantity
            [of knife_db knife "knife_line 0" "buy_knives [0] 0" bob noon]
    by (auto simp add: example_defs matches_def)
  have neg: "\<exists>d' resp e.
      handle_buy bob noon (buy_knives [- 2] 0) knife_db = (d', Inr resp)
    \<and> resp_total_cost resp = - 20
    \<and> map fs_quantity (for_sale_items d') = [7]
    \<and> pending_sales d' = [e] \<and> ps_quantity e = - 2 \<and> ps_total_silver e = - 20"
    using buy_accepts_nonpositive_quantity
            [of knife_db knife "knife_line (- 2)" "buy_knives [- 2] 0" bob noon]
    by (auto simp add: example_defs matches_def)
  from zero neg show ?thesis by blast
qed

section \<open>Purchase: escrow against cost\<close>

text \<open>The position the second loop works on lies in the list, and depends on the key columns only.\<close>

lemma first_match_bound: "first_match r xs = Some i \<Longrightarrow> i < length xs"
  by (induction xs arbitrary: i) (auto split: if_splits option.splits)

lemma first_match_keys:
  "map obj_key xs = map obj_key ys \<Longrightarrow> first_match r xs = first_match r ys"
proof (induction xs arbitrary: ys)
  case Nil
  then show ?case by simp
next
  case (Cons x xs)
  then obtain y ys' where ys: "ys = y # ys'" by (cases ys) auto
  with Cons.prems have k: "obj_key x = obj_key y" and rest: "map obj_key xs = map obj_key ys'"
    by auto
  from k have "matches r (fst x) = matches r (fst y)"
    by (simp add: obj_key_def matches_def)
  with Cons.IH [OF rest] ys show ?case by simp
qed

lemma first_match_hd:
  "first_match r (map (\<lambda>item. (item, b)) fsi) = Some i \<Longrightarrow>
     \<exists>rest. filter (matches r) fsi = (fsi ! i) # rest"
  by (induction fsi arbitrary: i) (auto split: if_splits option.splits)

lemma process_line_keys:
  "map obj_key (bs_objs (process_line usr clk r s)) = map obj_key (bs_objs s)"
proof (cases "first_match r (bs_objs s)")
  case None
  then show ?thesis by (simp add: process_line_def)
next
  case (Some i)
  then have "i < length (bs_objs s)" by (rule first_match_bound)
  then have "(map obj_key (bs_objs s))[i := obj_key (bs_objs s ! i)] = map obj_key (bs_objs s)"
    by (simp add: list_update_same_conv)
  with Some show ?thesis
    by (simp add: process_line_def Let_def map_update obj_key_def)
qed

lemma sellers_ok_keys:
  assumes "map obj_key xs = map obj_key ys" and "sellers_ok rs xs"
  shows "sellers_ok rs ys"
  unfolding sellers_ok_def
proof (intro ballI allI impI)
  fix r i
  assume r: "r \<in> set rs" and fm: "first_match r ys = Some i"
  from fm have i: "i < length ys" by (rule first_match_bound)
  from assms(1) have len: "length xs = length ys" by (metis length_map)
  from fm first_match_keys [OF assms(1)] have "first_match r xs = Some i" by simp
  with assms(2) r have t: "truthy (fs_seller_steam_id (fst (xs ! i)))"
    by (auto simp: sellers_ok_def)
  from assms(1) i len have "obj_key (xs ! i) = obj_key (ys ! i)"
    by (metis nth_map)
  with t show "truthy (fs_seller_steam_id (fst (ys ! i)))" by (simp add: obj_key_def)
qed

lemma sellers_ok_initial:
  assumes "\<forall>r\<in>set rs. seller_known fsi r"
  shows "sellers_ok rs (map (\<lambda>item. (item, False)) fsi)"
  unfolding sellers_ok_def
proof (intro ballI allI impI)
  fix r i
  assume r: "r \<in> set rs" and fm: "first_match r (map (\<lambda>item. (item, False)) fsi) = Some i"
  from first_match_hd [OF fm] obtain rest where f: "filter (matches r) fsi = (fsi ! i) # rest" ..
  from first_match_bound [OF fm] have "i < length fsi" by simp
  with assms r f show "truthy (fs_seller_steam_id (fst (map (\<lambda>item. (item, False)) fsi ! i)))"
    by (auto simp: seller_known_def)
qed

text \<open>One line adds its cost to the total and, the seller being named, the same amount of escrow.\<close>

lemma process_line_sum:
  assumes "sellers_ok [r] (bs_objs s)"
  shows "\<exists>new. bs_added (process_line usr clk r s) = bs_added s @ new
       \<and> bs_total_cost (process_line usr clk r s) = bs_total_cost s + sum_list (map ps_total_silver new)"
proof (cases "first_match r (bs_objs s)")
  case None
  then show ?thesis by (simp add: process_line_def)
next
  case (Some i)
  with assms have "truthy (fs_seller_steam_id (fst (bs_objs s ! i)))"
    by (simp add: sellers_ok_def)
  with Some show ?thesis by (simp add: process_line_def Let_def)
qed

lemma process_purchases_sum:
  "sellers_ok rs (bs_objs s) \<Longrightarrow>
   \<exists>new. bs_added (process_purchases usr clk rs s) = bs_added s @ new
       \<and> bs_total_cost (process_purchases usr clk rs s)
           = bs_total_cost s + sum_list (map ps_total_silver new)"
proof (induction rs arbitrary: s)
  case Nil
  then show ?case by simp
next
  case (Cons r rs)
  let ?mid = "process_line usr clk r s"
  from Cons.prems have one: "sellers_ok [r] (bs_objs s)" and rest: "sellers_ok rs (bs_objs s)"
    by (simp_all add: sellers_ok_def)
  from process_line_sum [OF one] obtain new1 where
    a1: "bs_added ?mid = bs_added s @ new1" and
    c1: "bs_total_cost ?mid = bs_total_cost s + sum_list (map ps_total_silver new1)"
    by blast
  have "sellers_ok rs (bs_objs ?mid)"
    by (rule sellers_ok_keys [OF _ rest]) (simp add: process_line_keys)
  from Cons.IH [OF this] obtain new2 where
    a2: "bs_added (process_purchases usr clk rs ?mid) = bs_added ?mid @ new2" and
    c2: "bs_total_cost (process_purchases usr clk rs ?mid)
           = bs_total_cost ?mid + sum_list (map ps_total_silver new2)"
    by blast
  show ?case
    by (rule exI [of _ "new1 @ new2"]) (simp add: a1 a2 c1 c2)
qed

text \<open>
  C2, as the specification states it: after every successful buy the proceeds of the escrow
  rows it created add up to the total cost of the history row it appended. This fails on a
  listing without a seller identity, for which \<^verbatim>\<open>handle_buy\<close> creates no escrow row
  (\<^verbatim>\<open>if item.seller_steam_id:\<close>): one knife bought from such a listing costs 10, is recorded
  with cost 10, and leaves the escrow ledger empty.
\<close>

theorem buy_without_seller_identity_no_escrow:
  "snd (handle_buy bob noon (buy_knives [1] 10) orphan_db)
     = Inr \<lparr> resp_purchased_items =
               [\<lparr> pd_DefName = ''ironKnife'', pd_Quantity = 1, pd_Price = 10, pd_PlayerName = ''Ann'',
                   pd_Quality = ''Normal'', pd_seller_steam_id = None, pd_seller_name = ''Ann'' \<rparr>],
             resp_total_cost = 10 \<rparr>
   \<and> pending_sales (fst (handle_buy bob noon (buy_knives [1] 10) orphan_db)) = []
   \<and> sum_list (map ps_total_silver
        (pending_sales (fst (handle_buy bob noon (buy_knives [1] 10) orphan_db)))) = 0
   \<and> map sh_total_cost (sales_history (fst (handle_buy bob noon (buy_knives [1] 10) orphan_db)))
     = [10]"
  by (simp add: handle_buy_def example_defs matches_def process_line_def Let_def)

text \<open>
  C2, amended: when every listing that a line of the batch resolves to names its seller, a
  successful buy appends escrow rows and exactly one history row, and the proceeds of the
  new escrow rows add up to the total cost of that history row (which is the cost returned).
\<close>

theorem buy_escrow_sum_equals_total_cost:
  assumes "handle_buy usr clk data d = (d', Inr resp)"
    and "\<forall>r\<in>set (br_items data). seller_known (for_sale_items d) r"
  shows "\<exists>new sale_record.
           pending_sales d' = pending_sales d @ new
         \<and> sales_history d' = sales_history d @ [sale_record]
         \<and> sum_list (map ps_total_silver new) = sh_total_cost sale_record
         \<and> resp_total_cost resp = sh_total_cost sale_record"
proof -
  let ?init = "\<lparr> bs_objs = map (\<lambda>item. (item, False)) (for_sale_items d),
                 bs_purchased_items = [], bs_total_cost = 0, bs_added = [] \<rparr>"
  let ?fin = "process_purchases usr clk (br_items data) ?init"
  have "sellers_ok (br_items data) (bs_objs ?init)"
    using sellers_ok_initial [OF assms(2)] by simp
  from process_purchases_sum [OF this, of usr clk] obtain new where
    a: "bs_added ?fin = new" and c: "bs_total_cost ?fin = sum_list (map ps_total_silver new)"
    by auto
  from assms(1) a c show ?thesis
    by (auto simp: handle_buy_def Let_def split: sum.splits if_splits)
qed

theorem buy_escrow_sum_equals_total_cost_witness:
  "seller_known (for_sale_items knife_db) (knife_line 3)
   \<and> (\<exists>new sale_record.
         pending_sales (fst (handle_buy bob noon (buy_knives [3] 30) knife_db)) = new
       \<and> sales_history (fst (handle_buy bob noon (buy_knives [3] 30) knife_db)) = [sale_record]
       \<and> sum_list (map ps_total_silver new) = 30
       \<and> sh_total_cost sale_record = 30)"
proof -
  let ?R = "handle_buy bob noon (buy_knives [3] 30) knife_db"
  have known: "\<forall>r\<in>set (br_items (buy_knives [3] 30)). seller_known (for_sale_items knife_db) r"
    by (simp add: example_defs seller_known_def matches_def)
  have ok: "?R = (fst ?R, Inr \<lparr> resp_purchased_items =
               [\<lparr> pd_DefName = ''ironKnife'', pd_Quantity = 3, pd_Price = 10, pd_PlayerName = ''Ann'',
                   pd_Quality = ''Normal'', pd_seller_steam_id = Some ''steam-ann'',
                   pd_seller_name = ''Ann'' \<rparr>],
             resp_total_cost = 30 \<rparr>)"
    by (simp add: handle_buy_def example_defs matches_def process_line_def Let_def)
  from buy_escrow_sum_equals_total_cost [OF ok known] obtain new sale_record where
    "pending_sales (fst ?R) = pending_sales knife_db @ new"
    "sales_history (fst ?R) = sales_history knife_db @ [sale_record]"
    "sum_list (map ps_total_silver new) = sh_total_cost sale_record"
    "30 = sh_total_cost sale_record"
    by auto
  then have "pending_sales (fst ?R) = new \<and> sales_history (fst ?R) = [sale_record]
      \<and> sum_list (map ps_total_silver new) = 30 \<and> sh_total_cost sale_record = 30"
    by (simp add: knife_db_def empty_db_def)
  moreover have "seller_known (for_sale_items knife_db) (knife_line 3)"
    using known by (simp add: buy_knives_def)
  ultimately show ?thesis by blast
qed

section \<open>Purchase: validation\<close>

lemma validate_prefix_ok:
  "\<forall>p\<in>set pre. line_ok fsi p \<Longrightarrow>
   validate_purchases fsi (pre @ rs) t
     = validate_purchases fsi rs (t + sum_list (map (line_cost fsi) pre))"
  by (induction pre arbitrary: t)
     (auto simp: line_ok_def line_cost_def add.assoc split: list.splits)

lemma validate_all_ok:
  "\<forall>r\<in>set rs. line_ok fsi r \<Longrightarrow>
   validate_purchases fsi rs t = Inr (t + sum_list (map (line_cost fsi) rs))"
  using validate_prefix_ok [of rs fsi "[]" t] by simp

lemma validate_some_bad:
  "\<exists>r\<in>set rs. \<not> line_ok fsi r \<Longrightarrow> \<exists>e. validate_purchases fsi rs t = Inl e"
  by (induction rs arbitrary: t) (auto simp: line_ok_def split: list.splits)

lemma buy_first_missing:
  assumes "br_items data = pre @ r # post" and "\<forall>p\<in>set pre. line_ok (for_sale_items d) p"
    and "filter (matches r) (for_sale_items d) = []"
  shows "handle_buy usr clk data d
           = (d, Inl (ItemUnavailable (bi_def_name r) (bi_seller_name r)))"
  using assms by (simp add: handle_buy_def validate_prefix_ok)

lemma buy_first_over:
  assumes "br_items data = pre @ r # post" and "\<forall>p\<in>set pre. line_ok (for_sale_items d) p"
    and "filter (matches r) (for_sale_items d) = item # rest"
    and "fs_quantity item < bi_quantity r"
  shows "handle_buy usr clk data d
           = (d, Inl (InsufficientStock (fs_def_name item) (bi_quantity r) (fs_quantity item)))"
  using assms by (simp add: handle_buy_def validate_prefix_ok)

lemma buy_short_of_silver:
  assumes "\<forall>r\<in>set (br_items data). line_ok (for_sale_items d) r"
    and "br_client_silver data < sum_list (map (line_cost (for_sale_items d)) (br_items data))"
  shows "handle_buy usr clk data d
           = (d, Inl (InsufficientFunds
                        (sum_list (map (line_cost (for_sale_items d)) (br_items data)))
                        (br_client_silver data)))"
  using assms by (simp add: handle_buy_def validate_all_ok)

lemma buy_some_bad:
  assumes "\<exists>r\<in>set (br_items data). \<not> line_ok (for_sale_items d) r"
  shows "\<exists>e. handle_buy usr clk data d = (d, Inl e)"
  using validate_some_bad [OF assms, of 0] by (auto simp: handle_buy_def)

lemma buy_rejected_unchanged:
  "snd (handle_buy usr clk data d) = Inl e \<Longrightarrow> fst (handle_buy usr clk data d) = d"
  by (auto simp: handle_buy_def Let_def split: sum.splits if_splits)

text \<open>
  C5. The first loop of \<^verbatim>\<open>handle_buy\<close> rejects the whole batch at the first line that fails:
  with \<open>ItemUnavailable\<close> when that line resolves to no listing (by item kind and seller
  name), with \<open>InsufficientStock\<close> when it asks for more than the listing it resolves to
  holds. When every line passes and the accumulated cost exceeds \<^verbatim>\<open>client_silver\<close>, the batch
  is rejected with \<open>InsufficientFunds\<close>. A batch with any failing line is rejected, and every
  rejection returns the store as the request found it: listings, escrow and history
  unchanged.
\<close>

theorem buy_validation_rejects_whole_batch:
  "(\<forall>pre r post.
       br_items data = pre @ r # post \<and> (\<forall>p\<in>set pre. line_ok (for_sale_items d) p)
       \<and> filter (matches r) (for_sale_items d) = []
       \<longrightarrow> handle_buy usr clk data d
             = (d, Inl (ItemUnavailable (bi_def_name r) (bi_seller_name r))))
 \<and> (\<forall>pre r post item rest.
       br_items data = pre @ r # post \<and> (\<forall>p\<in>set pre. line_ok (for_sale_items d) p)
       \<and> filter (matches r) (for_sale_items d) = item # rest \<and> fs_quantity item < bi_quantity r
       \<longrightarrow> handle_buy usr clk data d
             = (d, Inl (InsufficientStock (fs_def_name item) (bi_quantity r) (fs_quantity item))))
 \<and> ((\<forall>r\<in>set (br_items data). line_ok (for_sale_items d) r)
       \<and> br_client_silver data < sum_list (map (line_cost (for_sale_items d)) (br_items data))
       \<longrightarrow> handle_buy usr clk data d
             = (d, Inl (InsufficientFunds
                          (sum_list (map (line_cost (for_sale_items d)) (br_items data)))
                          (br_client_silver data))))
 \<and> ((\<exists>r\<in>set (br_items data). \<not> line_ok (for_sale_items d) r)
       \<longrightarrow> (\<exists>e. handle_buy usr clk data d = (d, Inl e)))
 \<and> (\<forall>e. snd (handle_buy usr clk data d) = Inl e \<longrightarrow> fst (handle_buy usr clk data d) = d)"
proof (intro conjI allI impI)
  fix pre r post
  assume "br_items data = pre @ r # post \<and> (\<forall>p\<in>set pre. line_ok (for_sale_items d) p)
       \<and> filter (matches r) (for_sale_items d) = []"
  then show "handle_buy usr clk data d
             = (d, Inl (ItemUnavailable (bi_def_name r) (bi_seller_name r)))"
    using buy_first_missing by blast
next
  fix pre r post item rest
  assume "br_items data = pre @ r # post \<and> (\<forall>p\<in>set pre. line_ok (for_sale_items d) p)
       \<and> filter (matches r) (for_sale_items d) = item # rest \<and> fs_quantity item < bi_quantity r"
  then show "handle_buy usr clk data d
             = (d, Inl (InsufficientStock (fs_def_name item) (bi_quantity r) (fs_quantity item)))"
    using buy_first_over by blast
next
  assume "(\<forall>r\<in>set (br_items data). line_ok (for_sale_items d) r)
       \<and> br_client_silver data < sum_list (map (line_cost (for_sale_items d)) (br_items data))"
  then show "handle_buy usr clk data d
             = (d, Inl (InsufficientFunds
                          (sum_list (map (line_cost (for_sale_items d)) (br_items data)))
                          (br_client_silver data)))"
    using buy_short_of_silver by blast
next
  assume "\<exists>r\<in>set (br_items data). \<not> line_ok (for_sale_items d) r"
  then show "\<exists>e. handle_buy usr clk data d = (d, Inl e)"
    by (rule buy_some_bad)
next
  fix e
  assume "snd (handle_buy usr clk data d) = Inl e"
  then show "fst (handle_buy usr clk data d) = d"
    by (rule buy_rejected_unchanged)
qed

theorem buy_validation_rejects_whole_batch_witness:
  "handle_buy bob noon \<lparr> br_items = [knife_line 2, steel_line, knife_line 9], br_client_silver = 500 \<rparr>
     knife_db = (knife_db, Inl (ItemUnavailable ''steel'' ''Ann''))
 \<and> handle_buy bob noon \<lparr> br_items = [knife_line 2, knife_line 9, steel_line], br_client_silver = 500 \<rparr>
     knife_db = (knife_db, Inl (InsufficientStock ''ironKnife'' 9 5))
 \<and> handle_buy bob noon (buy_knives [3] 29) knife_db = (knife_db, Inl (InsufficientFunds 30 29))"
proof -
  have ok2: "\<forall>p\<in>set [knife_line 2]. line_ok (for_sale_items knife_db) p"
    by (simp add: example_defs line_ok_def matches_def)
  have missing: "filter (matches steel_line) (for_sale_items knife_db) = []"
    by (simp add: example_defs steel_line_def matches_def)
  have over: "filter (matches (knife_line 9)) (for_sale_items knife_db) = knife # []
      \<and> fs_quantity knife < bi_quantity (knife_line 9)"
    by (simp add: example_defs matches_def)
  have ok3: "\<forall>r\<in>set (br_items (buy_knives [3] 29)). line_ok (for_sale_items knife_db) r"
    by (simp add: example_defs line_ok_def matches_def)
  have short: "br_client_silver (buy_knives [3] 29)
      < sum_list (map (line_cost (for_sale_items knife_db)) (br_items (buy_knives [3] 29)))"
    by (simp add: example_defs line_cost_def matches_def)
  have a: "handle_buy bob noon
       \<lparr> br_items = [knife_line 2, steel_line, knife_line 9], br_client_silver = 500 \<rparr> knife_db
     = (knife_db, Inl (ItemUnavailable (bi_def_name steel_line) (bi_seller_name steel_line)))"
    using buy_validation_rejects_whole_batch
            [of "\<lparr> br_items = [knife_line 2, steel_line, knife_line 9], br_client_silver = 500 \<rparr>"
                knife_db bob noon, THEN conjunct1, rule_format,
             of "[knife_line 2]" steel_line "[knife_line 9]"]
          ok2 missing
    by simp
  have b: "handle_buy bob noon
       \<lparr> br_items = [knife_line 2, knife_line 9, steel_line], br_client_silver = 500 \<rparr> knife_db
     = (knife_db, Inl (InsufficientStock (fs_def_name knife) (bi_quantity (knife_line 9))
                         (fs_quantity knife)))"
    using buy_validation_rejects_whole_batch
            [of "\<lparr> br_items = [knife_line 2, knife_line 9, steel_line], br_client_silver = 500 \<rparr>"
                knife_db bob noon, THEN conjunct2, THEN conjunct1, rule_format,
             of "[knife_line 2]" "knife_line 9" "[steel_line]" knife "[]"]
          ok2 over
    by simp
  have c: "handle_buy bob noon (buy_knives [3] 29) knife_db
     = (knife_db, Inl (InsufficientFunds
          (sum_list (map (line_cost (for_sale_items knife_db)) (br_items (buy_knives [3] 29))))
          (br_client_silver (buy_knives [3] 29))))"
    using buy_validation_rejects_whole_batch
            [of "buy_knives [3] 29" knife_db bob noon,
             THEN conjunct2, THEN conjunct2, THEN conjunct1]
          ok3 short
    by blast
  from a b c show ?thesis
    by (simp add: steel_line_def knife_line_def knife_def line_cost_def knife_db_def empty_db_def
          buy_knives_def matches_def)
qed

section \<open>Purchase: what does hold for the quantities\<close>

text \<open>
  The negative quantity above needs two lines on one listing. When the lines of a batch resolve
  to pairwise different listings, a successful buy leaves every listing with a quantity of
  at least 1, provided the store had it so: a line that takes all of a listing deletes it,
  any other line leaves at least one unit (also a line with a negative quantity).
\<close>

lemma validate_ok_lines:
  "validate_purchases fsi rs t = Inr cost \<Longrightarrow> \<forall>r\<in>set rs. line_ok fsi r"
  using validate_some_bad [of rs fsi t] by auto

lemma process_line_positive:
  assumes inv: "\<forall>x\<in>set (bs_objs s). snd x \<or> 1 \<le> fs_quantity (fst x)"
    and ok: "\<forall>i. first_match r (bs_objs s) = Some i
               \<longrightarrow> bi_quantity r \<le> fs_quantity (fst (bs_objs s ! i))"
  shows "\<forall>x\<in>set (bs_objs (process_line usr clk r s)). snd x \<or> 1 \<le> fs_quantity (fst x)"
proof (cases "first_match r (bs_objs s)")
  case None
  with inv show ?thesis by (simp add: process_line_def)
next
  case (Some i)
  with ok have le: "bi_quantity r \<le> fs_quantity (fst (bs_objs s ! i))" by simp
  let ?item = "fst (bs_objs s ! i)"
  let ?y = "if bi_quantity r = fs_quantity ?item then (?item, True)
            else (?item\<lparr> fs_quantity := fs_quantity ?item - bi_quantity r \<rparr>, snd (bs_objs s ! i))"
  from Some have objs: "bs_objs (process_line usr clk r s) = (bs_objs s)[i := ?y]"
    by (simp add: process_line_def Let_def)
  from le have y: "snd ?y \<or> 1 \<le> fs_quantity (fst ?y)" by simp
  show ?thesis
  proof
    fix x
    assume "x \<in> set (bs_objs (process_line usr clk r s))"
    with objs have "x \<in> insert ?y (set (bs_objs s))"
      using set_update_subset_insert [of "bs_objs s" i ?y] by auto
    with inv y show "snd x \<or> 1 \<le> fs_quantity (fst x)" by auto
  qed
qed

lemma process_line_elsewhere:
  assumes "first_match r (bs_objs s) \<noteq> Some j"
  shows "bs_objs (process_line usr clk r s) ! j = bs_objs s ! j"
proof (cases "first_match r (bs_objs s)")
  case None
  then show ?thesis by (simp add: process_line_def)
next
  case (Some i)
  with assms have "i \<noteq> j" by simp
  with Some show ?thesis by (simp add: process_line_def Let_def)
qed

lemma process_purchases_positive:
  assumes "\<forall>x\<in>set (bs_objs s). snd x \<or> 1 \<le> fs_quantity (fst x)"
    and "\<forall>r\<in>set rs. \<forall>i. first_match r (bs_objs s) = Some i
               \<longrightarrow> bi_quantity r \<le> fs_quantity (fst (bs_objs s ! i))"
    and "distinct (map (\<lambda>r. first_match r (bs_objs s)) rs)"
  shows "\<forall>x\<in>set (bs_objs (process_purchases usr clk rs s)). snd x \<or> 1 \<le> fs_quantity (fst x)"
  using assms
proof (induction rs arbitrary: s)
  case Nil
  then show ?case by simp
next
  case (Cons r rs)
  let ?mid = "process_line usr clk r s"
  have keys: "map obj_key (bs_objs ?mid) = map obj_key (bs_objs s)"
    by (rule process_line_keys)
  have fm: "first_match q (bs_objs ?mid) = first_match q (bs_objs s)" for q
    by (rule first_match_keys [OF keys])
  from Cons.prems(1,2) have inv: "\<forall>x\<in>set (bs_objs ?mid). snd x \<or> 1 \<le> fs_quantity (fst x)"
    by (intro process_line_positive) simp_all
  have ok: "\<forall>q\<in>set rs. \<forall>i. first_match q (bs_objs ?mid) = Some i
               \<longrightarrow> bi_quantity q \<le> fs_quantity (fst (bs_objs ?mid ! i))"
  proof (intro ballI allI impI)
    fix q i
    assume q: "q \<in> set rs" and "first_match q (bs_objs ?mid) = Some i"
    then have qi: "first_match q (bs_objs s) = Some i" by (simp add: fm)
    from Cons.prems(3) q have "first_match r (bs_objs s) \<noteq> first_match q (bs_objs s)"
      by auto
    with qi have "first_match r (bs_objs s) \<noteq> Some i" by simp
    then have "bs_objs ?mid ! i = bs_objs s ! i" by (rule process_line_elsewhere)
    with Cons.prems(2) q qi show "bi_quantity q \<le> fs_quantity (fst (bs_objs ?mid ! i))"
      by simp
  qed
  from Cons.prems(3) have dist: "distinct (map (\<lambda>q. first_match q (bs_objs ?mid)) rs)"
    by (simp add: fm)
  from Cons.IH [OF inv ok dist] show ?case by simp
qed

lemma buy_distinct_listings_keeps_quantities_positive:
  assumes "\<forall>item\<in>set (for_sale_items d). 1 \<le> fs_quantity item"
    and "distinct (map (\<lambda>r. first_match r (map (\<lambda>item. (item, False)) (for_sale_items d)))
                    (br_items data))"
    and "handle_buy usr clk data d = (d', Inr resp)"
  shows "\<forall>item\<in>set (for_sale_items d'). 1 \<le> fs_quantity item"
proof -
  let ?objs = "map (\<lambda>item. (item, False)) (for_sale_items d)"
  let ?init = "\<lparr> bs_objs = ?objs, bs_purchased_items = [], bs_total_cost = 0, bs_added = [] \<rparr>"
  let ?fin = "process_purchases usr clk (br_items data) ?init"
  from assms(3) obtain cost where
    "validate_purchases (for_sale_items d) (br_items data) 0 = Inr cost"
    by (auto simp: handle_buy_def split: sum.splits)
  then have lines: "\<forall>r\<in>set (br_items data). line_ok (for_sale_items d) r"
    by (rule validate_ok_lines)
  have ok: "\<forall>r\<in>set (br_items data). \<forall>i. first_match r (bs_objs ?init) = Some i
               \<longrightarrow> bi_quantity r \<le> fs_quantity (fst (bs_objs ?init ! i))"
  proof (intro ballI allI impI)
    fix r i
    assume r: "r \<in> set (br_items data)" and "first_match r (bs_objs ?init) = Some i"
    then have fm: "first_match r ?objs = Some i" by simp
    from first_match_hd [OF fm] obtain rest where
      f: "filter (matches r) (for_sale_items d) = (for_sale_items d ! i) # rest" ..
    from first_match_bound [OF fm] have "i < length (for_sale_items d)" by simp
    with lines r f show "bi_quantity r \<le> fs_quantity (fst (bs_objs ?init ! i))"
      by (auto simp: line_ok_def)
  qed
  from assms(1) have inv: "\<forall>x\<in>set (bs_objs ?init). snd x \<or> 1 \<le> fs_quantity (fst x)"
    by auto
  from assms(2) have dist: "distinct (map (\<lambda>r. first_match r (bs_objs ?init)) (br_items data))"
    by simp
  from process_purchases_positive [OF inv ok dist, of usr clk]
  have fin: "\<forall>x\<in>set (bs_objs ?fin). snd x \<or> 1 \<le> fs_quantity (fst x)" .
  from assms(3) have "for_sale_items d' = map fst (filter (\<lambda>x. \<not> snd x) (bs_objs ?fin))"
    by (auto simp: handle_buy_def Let_def split: sum.splits if_splits)
  with fin show ?thesis by auto
qed

text \<open>
  A buy of all of a listing deletes it: the scenario's buyer takes the five knives and the
  store is empty.
\<close>

lemma buy_all_deletes_listing:
  "for_sale_items (fst (handle_buy bob noon (buy_knives [5] 50) knife_db)) = []"
  by (simp add: handle_buy_def example_defs matches_def process_line_def Let_def)

section \<open>Escrow claim\<close>

text \<open>
  Every escrow row that \<^verbatim>\<open>handle_buy\<close> appends carries price times quantity as its proceeds;
  no other function writes the table.
\<close>

lemma process_line_added_consistent:
  assumes "\<forall>e\<in>set (bs_added s). ps_total_silver e = ps_price e * ps_quantity e"
  shows "\<forall>e\<in>set (bs_added (process_line usr clk r s)). ps_total_silver e = ps_price e * ps_quantity e"
  using assms by (auto simp: process_line_def Let_def split: option.splits)

lemma process_purchases_added_consistent:
  "\<forall>e\<in>set (bs_added s). ps_total_silver e = ps_price e * ps_quantity e \<Longrightarrow>
   \<forall>e\<in>set (bs_added (process_purchases usr clk rs s)).
      ps_total_silver e = ps_price e * ps_quantity e"
proof (induction rs arbitrary: s)
  case Nil
  then show ?case by simp
next
  case (Cons r rs)
  from Cons.prems have "\<forall>e\<in>set (bs_added (process_line usr clk r s)).
      ps_total_silver e = ps_price e * ps_quantity e"
    by (rule process_line_added_consistent)
  from Cons.IH [OF this] show ?case by simp
qed

lemma buy_keeps_escrow_consistent:
  assumes "\<forall>e\<in>set (pending_sales d). ps_total_silver e = ps_price e * ps_quantity e"
  shows "\<forall>e\<in>set (pending_sales (fst (handle_buy usr clk data d))).
           ps_total_silver e = ps_price e * ps_quantity e"
proof -
  have "\<forall>e\<in>set (bs_added (process_purchases usr clk (br_items data)
            \<lparr> bs_objs = map (\<lambda>item. (item, False)) (for_sale_items d),
              bs_purchased_items = [], bs_total_cost = 0, bs_added = [] \<rparr>)).
          ps_total_silver e = ps_price e * ps_quantity e"
    by (rule process_purchases_added_consistent) simp
  with assms show ?thesis
    by (auto simp: handle_buy_def Let_def split: sum.splits)
qed

lemma sum_list_map_cong_set:
  "\<forall>x\<in>set xs. f x = g x \<Longrightarrow> sum_list (map f xs) = sum_list (map g xs)"
  by (induction xs) auto

text \<open>
  C6. \<^verbatim>\<open>claim_sales\<close> deletes all escrow rows of the seller, leaves every other row and table
  as it was, and returns the sum of the proceeds of the deleted rows and their number; with
  no row of the seller it returns (0, 0) and changes nothing, so a second claim right after
  the first returns (0, 0). The sum returned is computed as price times quantity of each
  row, which is the row's proceeds for every row that \<^verbatim>\<open>handle_buy\<close> wrote.
\<close>

theorem claim_sums_and_deletes:
  assumes "\<forall>e\<in>set (pending_sales d).
             ps_seller_steam_id e = Some (u_steam_id usr) \<longrightarrow>
             ps_total_silver e = ps_price e * ps_quantity e"
  shows "claim_sales usr d
           = (d\<lparr> pending_sales :=
                   filter (\<lambda>e. ps_seller_steam_id e \<noteq> Some (u_steam_id usr)) (pending_sales d) \<rparr>,
              (sum_list (map ps_total_silver
                 (filter (\<lambda>e. ps_seller_steam_id e = Some (u_steam_id usr)) (pending_sales d))),
               int (length
                 (filter (\<lambda>e. ps_seller_steam_id e = Some (u_steam_id usr)) (pending_sales d)))))
       \<and> (filter (\<lambda>e. ps_seller_steam_id e = Some (u_steam_id usr)) (pending_sales d) = []
            \<longrightarrow> claim_sales usr d = (d, (0, 0)))
       \<and> claim_sales usr (fst (claim_sales usr d)) = (fst (claim_sales usr d), (0, 0))"
proof -
  let ?mine = "filter (\<lambda>e. ps_seller_steam_id e = Some (u_steam_id usr)) (pending_sales d)"
  let ?others = "filter (\<lambda>e. ps_seller_steam_id e \<noteq> Some (u_steam_id usr)) (pending_sales d)"
  from assms have "\<forall>e\<in>set ?mine. ps_price e * ps_quantity e = ps_total_silver e"
    by simp
  then have total: "sum_list (map (\<lambda>e. ps_price e * ps_quantity e) ?mine)
      = sum_list (map ps_total_silver ?mine)"
    by (rule sum_list_map_cong_set)
  have keep: "?mine = [] \<Longrightarrow> ?others = pending_sales d"
    by (simp add: filter_empty_conv filter_id_conv)
  have first: "claim_sales usr d
      = (d\<lparr> pending_sales := ?others \<rparr>, (sum_list (map ps_total_silver ?mine), int (length ?mine)))"
  proof (cases "?mine = []")
    case True
    with keep show ?thesis by (simp add: claim_sales_def)
  next
    case False
    with total show ?thesis by (simp add: claim_sales_def Let_def)
  qed
  have none: "?mine = [] \<longrightarrow> claim_sales usr d = (d, (0, 0))"
    by (simp add: claim_sales_def)
  have "filter (\<lambda>e. ps_seller_steam_id e = Some (u_steam_id usr)) ?others = []"
    by (simp add: filter_empty_conv)
  then have second: "claim_sales usr (d\<lparr> pending_sales := ?others \<rparr>)
      = (d\<lparr> pending_sales := ?others \<rparr>, (0, 0))"
    by (simp add: claim_sales_def)
  from first none second show ?thesis by simp
qed

theorem claim_sums_and_deletes_witness:
  "claim_sales ann escrow_db
     = (empty_db\<lparr> pending_sales := [owed ''steam-bob'' 7 1] \<rparr>, (35, 2))
 \<and> claim_sales ann (fst (claim_sales ann escrow_db)) = (fst (claim_sales ann escrow_db), (0, 0))"
proof -
  have inv: "\<forall>e\<in>set (pending_sales escrow_db).
      ps_seller_steam_id e = Some (u_steam_id ann) \<longrightarrow>
      ps_total_silver e = ps_price e * ps_quantity e"
    by (simp add: escrow_db_def empty_db_def owed_def)
  note claimed = claim_sums_and_deletes [OF inv]
  from claimed have first: "claim_sales ann escrow_db
      = (escrow_db\<lparr> pending_sales :=
           filter (\<lambda>e. ps_seller_steam_id e \<noteq> Some (u_steam_id ann)) (pending_sales escrow_db) \<rparr>,
         (sum_list (map ps_total_silver
            (filter (\<lambda>e. ps_seller_steam_id e = Some (u_steam_id ann)) (pending_sales escrow_db))),
          int (length
            (filter (\<lambda>e. ps_seller_steam_id e = Some (u_steam_id ann)) (pending_sales escrow_db)))))"
    by (rule conjunct1)
  have "claim_sales ann escrow_db
      = (empty_db\<lparr> pending_sales := [owed ''steam-bob'' 7 1] \<rparr>, (35, 2))"
    unfolding first by (simp add: escrow_db_def empty_db_def owed_def ann_def)
  moreover from claimed
  have "claim_sales ann (fst (claim_sales ann escrow_db)) = (fst (claim_sales ann escrow_db), (0, 0))"
    by (rule conjunct2 [THEN conjunct2])
  ultimately show ?thesis by (rule conjI)
qed

section \<open>Listing removal\<close>

text \<open>
  C9. \<^verbatim>\<open>remove_item\<close> should delete the listing at the given position among the seller's own
  and fail with \<open>InvalidIndex\<close> exactly when the index is no such position. The handler
  refuses an index that is too large and lets a negative one through to Python's
  subscript: with Ann's two listings, index -1 is no position, yet the call succeeds and
  deletes her last listing, the shield; index -3 raises \<^verbatim>\<open>IndexError\<close>, not \<open>InvalidIndex\<close>.
\<close>

theorem remove_negative_index_deletes_last:
  "remove_item ann (- 1) two_listings_db = (empty_db\<lparr> for_sale_items := [knife] \<rparr>, Inr shield)
 \<and> remove_item ann (- 3) two_listings_db = (two_listings_db, Inl IndexError)
 \<and> remove_item ann 2 two_listings_db = (two_listings_db, Inl InvalidIndex)"
  by (simp add: remove_item_def py_index_def Let_def two_listings_db_def empty_db_def ann_def
        knife_def shield_def)

text \<open>
  For an index from 0 up to the number of the seller's listings the handler does what the
  specification says: it deletes the listing at that position among the seller's own and
  nothing else,
  and an index at or above that number is refused with \<open>InvalidIndex\<close>, the store unchanged.
\<close>

lemma remove_item_in_range:
  assumes "0 \<le> i"
    and "i < int (length (filter (\<lambda>p. fs_seller_steam_id (for_sale_items d ! p) = Some (u_steam_id usr))
                           [0..<length (for_sale_items d)]))"
  shows "remove_item usr i d
           = (d\<lparr> for_sale_items :=
                   take (filter (\<lambda>p. fs_seller_steam_id (for_sale_items d ! p) = Some (u_steam_id usr))
                           [0..<length (for_sale_items d)] ! nat i) (for_sale_items d)
                   @ drop (Suc (filter (\<lambda>p. fs_seller_steam_id (for_sale_items d ! p)
                                            = Some (u_steam_id usr))
                                  [0..<length (for_sale_items d)] ! nat i)) (for_sale_items d) \<rparr>,
              Inr (for_sale_items d !
                     (filter (\<lambda>p. fs_seller_steam_id (for_sale_items d ! p) = Some (u_steam_id usr))
                        [0..<length (for_sale_items d)] ! nat i)))"
  using assms by (simp add: remove_item_def py_index_def Let_def)

lemma remove_item_too_large:
  assumes "int (length (filter (\<lambda>p. fs_seller_steam_id (for_sale_items d ! p) = Some (u_steam_id usr))
                           [0..<length (for_sale_items d)])) \<le> i"
  shows "remove_item usr i d = (d, Inl InvalidIndex)"
  using assms by (simp add: remove_item_def Let_def)

section \<open>Tokens: the concrete stores are stores of the server\<close>

lemma ann_login:
  "generate_jwt_token secret ''jti-ann'' noon ''steam-ann'' ''Ann'' None empty_db
     = Inr (ann_logged_in, ann_token)"
  by (simp add: generate_jwt_token_def jwt_encode_def JWT_EXPIRATION_HOURS_def Let_def
        token_example_defs)

lemma ann_logout:
  "logout afternoon ann_token ann ann_logged_in = ann_logged_out"
  by (simp add: logout_def Let_def token_example_defs)

lemma ghost_login:
  "generate_jwt_token secret ''jti-ghost'' noon '''' ''Ghost'' None empty_db
     = Inr (ghost_logged_in, ghost_token)"
  by (simp add: generate_jwt_token_def jwt_encode_def JWT_EXPIRATION_HOURS_def Let_def
        token_example_defs)

section \<open>Tokens: validation\<close>

text \<open>The token is the primary key of its table: a row is the only one with its token.\<close>

lemma unique_row:
  "distinct (map f xs) \<Longrightarrow> x \<in> set xs \<Longrightarrow> filter (\<lambda>t. f t = f x) xs = [x]"
proof (induction xs)
  case Nil
  then show ?case by simp
next
  case (Cons a xs)
  show ?case
  proof (cases "a = x")
    case True
    with Cons.prems have "\<forall>t\<in>set xs. f t \<noteq> f x" by (auto simp: image_iff)
    then have "filter (\<lambda>t. f t = f x) xs = []" by (simp add: filter_empty_conv)
    with True show ?thesis by simp
  next
    case False
    with Cons.prems have x: "x \<in> set xs" and d: "distinct (map f xs)" by auto
    from Cons.prems x have "f a \<noteq> f x" by (auto simp: image_iff)
    with Cons.IH [OF d x] show ?thesis by simp
  qed
qed

lemma no_row:
  "\<forall>t\<in>set xs. f t \<noteq> k \<Longrightarrow> filter (\<lambda>t. f t = k) xs = []"
  by (simp add: filter_empty_conv)

lemma verify_revoked_row:
  assumes "distinct (map at_token (active_tokens d))" and "row \<in> set (active_tokens d)"
    and "at_token row = token" and "at_revoked row = 1"
  shows "verify_jwt_token key clk token d = Inr (d, (None, ''Token has been revoked''))"
proof -
  from unique_row [OF assms(1,2)] assms(3)
  have "filter (\<lambda>t. at_token t = token) (active_tokens d) = [row]" by simp
  with assms(4) show ?thesis by (simp add: verify_jwt_token_def)
qed

lemma verify_no_row:
  assumes "\<forall>t\<in>set (active_tokens d). at_token t \<noteq> token"
  shows "verify_jwt_token key clk token d = Inr (d, (None, ''Token has been revoked''))"
  using no_row [OF assms] by (simp add: verify_jwt_token_def)

text \<open>
  C3. A token whose row in the store is marked revoked is rejected, whatever the token is:
  the answer is the same for a token whose signature verifies and whose expiry lies ahead
  as for any other, because the row is read, and the request refused, before
  \<^verbatim>\<open>jwt.decode\<close> is called at all. Nothing in the store changes.
\<close>

theorem revoked_token_rejected:
  assumes "distinct (map at_token (active_tokens d))" and "row \<in> set (active_tokens d)"
    and "at_token row = token" and "at_revoked row = 1"
  shows "verify_jwt_token key clk token d = Inr (d, (None, ''Token has been revoked''))"
  using assms by (rule verify_revoked_row)

theorem revoked_token_rejected_witness:
  "jwt_decode (afternoon 0) ann_token secret = Inr ann_claims
 \<and> at_expires_at (ann_row\<lparr> at_revoked := 1 \<rparr>) > afternoon 0
 \<and> verify_jwt_token secret afternoon ann_token ann_logged_out
     = Inr (ann_logged_out, (None, ''Token has been revoked''))"
proof -
  have "distinct (map at_token (active_tokens ann_logged_out))"
    and "ann_row\<lparr> at_revoked := 1 \<rparr> \<in> set (active_tokens ann_logged_out)"
    and "at_token (ann_row\<lparr> at_revoked := 1 \<rparr>) = ann_token"
    and "at_revoked (ann_row\<lparr> at_revoked := 1 \<rparr>) = 1"
    by (simp_all add: ann_logged_out_def empty_db_def ann_row_def)
  then have "verify_jwt_token secret afternoon ann_token ann_logged_out
     = Inr (ann_logged_out, (None, ''Token has been revoked''))"
    by (rule revoked_token_rejected)
  moreover have "jwt_decode (afternoon 0) ann_token secret = Inr ann_claims"
    by (simp add: ann_token_def ann_claims_def afternoon_def py_int_def)
  moreover have "at_expires_at (ann_row\<lparr> at_revoked := 1 \<rparr>) > afternoon 0"
    by (simp add: ann_row_def afternoon_def)
  ultimately show ?thesis by simp
qed

text \<open>
  C8, as the specification states it: a token without a row in the store is rejected with a
  reason Unknown of its own, different from the reason given for a revoked row.
  \<^verbatim>\<open>verify_jwt_token\<close> has one branch for both (\<^verbatim>\<open>if not db_token or db_token.revoked == 1\<close>):
  Ann's token gets the same answer from the empty store as from the store that holds its
  revoked row.
\<close>

theorem unknown_token_reported_as_revoked:
  "verify_jwt_token secret afternoon ann_token empty_db
     = Inr (empty_db, (None, ''Token has been revoked''))
 \<and> verify_jwt_token secret afternoon ann_token ann_logged_out
     = Inr (ann_logged_out, (None, ''Token has been revoked''))
 \<and> snd (snd (projr (verify_jwt_token secret afternoon ann_token empty_db)))
     = snd (snd (projr (verify_jwt_token secret afternoon ann_token ann_logged_out)))"
  by (simp add: verify_jwt_token_def token_example_defs)

text \<open>
  C8, amended: \<^verbatim>\<open>verify_jwt_token\<close> either accepts the token (message "Valid") or rejects it,
  leaving the store unchanged, with exactly one of three messages: "Token has been revoked"
  when the store has no row for the token or the row is marked revoked, "Token has expired"
  when the row is in force, the signature verifies and the signed expiry is not ahead of
  the clock, "Invalid token" when the row is in force and the token is no JWT signed with
  the server's key. A token without a row gets the same message as a revoked one.
\<close>

theorem verify_reject_reasons:
  assumes "distinct (map at_token (active_tokens d))"
  shows "((\<exists>d' claims. verify_jwt_token key clk token d = Inr (d', (Some claims, ''Valid'')))
          \<or> verify_jwt_token key clk token d = Inr (d, (None, ''Token has been revoked''))
          \<or> verify_jwt_token key clk token d = Inr (d, (None, ''Token has expired''))
          \<or> verify_jwt_token key clk token d = Inr (d, (None, ''Invalid token'')))
       \<and> (verify_jwt_token key clk token d = Inr (d, (None, ''Token has been revoked''))
            \<longleftrightarrow> (\<forall>t\<in>set (active_tokens d). at_token t = token \<longrightarrow> at_revoked t = 1))
       \<and> (verify_jwt_token key clk token d = Inr (d, (None, ''Token has expired''))
            \<longleftrightarrow> (\<exists>t\<in>set (active_tokens d). at_token t = token \<and> at_revoked t \<noteq> 1)
                \<and> jwt_decode (clk 0) token key = Inl ExpiredSignatureError)
       \<and> (verify_jwt_token key clk token d = Inr (d, (None, ''Invalid token''))
            \<longleftrightarrow> (\<exists>t\<in>set (active_tokens d). at_token t = token \<and> at_revoked t \<noteq> 1)
                \<and> jwt_decode (clk 0) token key = Inl InvalidTokenError)"
proof -
  let ?all_revoked = "\<forall>t\<in>set (active_tokens d). at_token t = token \<longrightarrow> at_revoked t = 1"
  let ?in_force = "\<exists>t\<in>set (active_tokens d). at_token t = token \<and> at_revoked t \<noteq> 1"
  show ?thesis
  proof (cases ?all_revoked)
    case True
    have res: "verify_jwt_token key clk token d = Inr (d, (None, ''Token has been revoked''))"
    proof (cases "\<exists>row\<in>set (active_tokens d). at_token row = token")
      case False
      then have "\<forall>t\<in>set (active_tokens d). at_token t \<noteq> token" by blast
      then show ?thesis by (rule verify_no_row)
    next
      case True
      then obtain row where row: "row \<in> set (active_tokens d)" "at_token row = token" by blast
      with \<open>?all_revoked\<close> have "at_revoked row = 1" by blast
      with assms row show ?thesis by (rule verify_revoked_row)
    qed
    from True have nf: "\<not> ?in_force" by blast
    show ?thesis unfolding res using True nf by simp
  next
    case False
    then obtain row where row: "row \<in> set (active_tokens d)" "at_token row = token"
      and live: "at_revoked row \<noteq> 1" by blast
    from unique_row [OF assms row(1)] row(2)
    have only: "filter (\<lambda>t. at_token t = token) (active_tokens d) = [row]" by simp
    from row live have inf: ?in_force by blast
    show ?thesis
    proof (cases "jwt_decode (clk 0) token key")
      case (Inr payload)
      with only live
      have "\<exists>d' claims. verify_jwt_token key clk token d = Inr (d', (Some claims, ''Valid''))"
        by (cases "jp_steam_id payload = []") (simp_all add: verify_jwt_token_def Let_def)
      then obtain d' claims where
        res: "verify_jwt_token key clk token d = Inr (d', (Some claims, ''Valid''))"
        by blast
      show ?thesis unfolding res using False Inr by simp
    next
      case (Inl e)
      show ?thesis
      proof (cases e)
        case ExpiredSignatureError
        with Inl only live
        have res: "verify_jwt_token key clk token d = Inr (d, (None, ''Token has expired''))"
          by (simp add: verify_jwt_token_def)
        show ?thesis unfolding res using False inf Inl ExpiredSignatureError by simp
      next
        case InvalidTokenError
        with Inl only live
        have res: "verify_jwt_token key clk token d = Inr (d, (None, ''Invalid token''))"
          by (simp add: verify_jwt_token_def)
        show ?thesis unfolding res using False inf Inl InvalidTokenError by simp
      qed
    qed
  qed
qed

theorem verify_reject_reasons_witness:
  "verify_jwt_token secret afternoon ann_token empty_db
     = Inr (empty_db, (None, ''Token has been revoked''))
 \<and> verify_jwt_token secret next_week ann_token ann_logged_in
     = Inr (ann_logged_in, (None, ''Token has expired''))
 \<and> verify_jwt_token ''another key'' afternoon ann_token ann_logged_in
     = Inr (ann_logged_in, (None, ''Invalid token''))"
proof -
  have e: "distinct (map at_token (active_tokens empty_db))"
    by (simp add: empty_db_def)
  have a: "distinct (map at_token (active_tokens ann_logged_in))"
    by (simp add: ann_logged_in_def empty_db_def)
  have in_force: "\<exists>t\<in>set (active_tokens ann_logged_in). at_token t = ann_token \<and> at_revoked t \<noteq> 1"
    by (simp add: ann_logged_in_def empty_db_def ann_row_def)
  have "\<forall>t\<in>set (active_tokens empty_db). at_token t = ann_token \<longrightarrow> at_revoked t = 1"
    by (simp add: empty_db_def)
  with verify_reject_reasons [OF e, of secret afternoon ann_token]
  have unknown: "verify_jwt_token secret afternoon ann_token empty_db
     = Inr (empty_db, (None, ''Token has been revoked''))"
    by blast
  have "jwt_decode (next_week 0) ann_token secret = Inl ExpiredSignatureError"
    by (simp add: ann_token_def ann_claims_def next_week_def py_int_def)
  with in_force verify_reject_reasons [OF a, of secret next_week ann_token]
  have expired: "verify_jwt_token secret next_week ann_token ann_logged_in
     = Inr (ann_logged_in, (None, ''Token has expired''))"
    by blast
  have "jwt_decode (afternoon 0) ann_token ''another key'' = Inl InvalidTokenError"
    by (simp add: ann_token_def secret_def)
  with in_force verify_reject_reasons [OF a, of "''another key''" afternoon ann_token]
  have invalid: "verify_jwt_token ''another key'' afternoon ann_token ann_logged_in
     = Inr (ann_logged_in, (None, ''Invalid token''))"
    by blast
  from unknown expired invalid show ?thesis by simp
qed

section \<open>Tokens: sliding expiry\<close>

lemma map_same_key:
  "(\<And>x. f (g x) = f x) \<Longrightarrow> map f (map g xs) = map f xs"
  by (induction xs) simp_all

lemma scalar_one_or_none_Some:
  "scalar_one_or_none xs = Inr (Some r) \<Longrightarrow> xs = [r]"
  by (cases xs rule: scalar_one_or_none.cases) simp_all

text \<open>What an accepted validation did: the two branches of \<^verbatim>\<open>if steam_id:\<close>.\<close>

lemma verify_accepted:
  assumes "verify_jwt_token key clk token d = Inr (d', (Some claims, msg))"
  shows "\<exists>payload. jwt_decode (clk 0) token key = Inr payload
       \<and> (if jp_steam_id payload \<noteq> []
           then d' = d\<lparr> active_tokens :=
                          map (\<lambda>t. if at_token t = token
                                    then t\<lparr> at_expires_at := clk 1 + JWT_EXPIRATION_HOURS * 3600 \<rparr>
                                    else t) (active_tokens d),
                        active_users :=
                          map (\<lambda>u. if au_steam_id u = jp_steam_id payload
                                    then u\<lparr> au_last_seen := clk 2 \<rparr> else u) (active_users d) \<rparr>
              \<and> claims = payload\<lparr> jp_exp := clk 1 + JWT_EXPIRATION_HOURS * 3600 \<rparr>
           else d' = d \<and> claims = payload)
       \<and> (\<exists>row. filter (\<lambda>t. at_token t = token) (active_tokens d) = [row] \<and> at_revoked row \<noteq> 1)"
proof (cases "scalar_one_or_none (filter (\<lambda>t. at_token t = token) (active_tokens d))")
  case (Inl e)
  with assms show ?thesis by (simp add: verify_jwt_token_def)
next
  case (Inr found)
  show ?thesis
  proof (cases found)
    case None
    with Inr assms show ?thesis by (simp add: verify_jwt_token_def)
  next
    case (Some row)
    with Inr have only: "filter (\<lambda>t. at_token t = token) (active_tokens d) = [row]"
      by (simp add: scalar_one_or_none_Some)
    show ?thesis
    proof (cases "at_revoked row = 1")
      case True
      with only assms show ?thesis by (simp add: verify_jwt_token_def)
    next
      case False
      show ?thesis
      proof (cases "jwt_decode (clk 0) token key")
        case (Inl e)
        with only False assms show ?thesis
          by (cases e) (simp_all add: verify_jwt_token_def)
      next
        case (Inr payload)
        with only False assms show ?thesis
          by (cases "jp_steam_id payload = []") (auto simp: verify_jwt_token_def Let_def)
      qed
    qed
  qed
qed

lemma py_int_le:
  assumes "x \<le> y" and "0 \<le> y"
  shows "real_of_int (py_int x) \<le> y"
proof (cases "0 \<le> x")
  case True
  have "real_of_int \<lfloor>x\<rfloor> \<le> x" by (rule of_int_floor_le)
  with assms(1) have "real_of_int \<lfloor>x\<rfloor> \<le> y" by linarith
  with True show ?thesis by (simp add: py_int_def)
next
  case False
  then have "\<lceil>x\<rceil> \<le> 0" by (simp add: ceiling_le_zero)
  then have "real_of_int \<lceil>x\<rceil> \<le> 0" by simp
  with assms(2) have "real_of_int \<lceil>x\<rceil> \<le> y" by linarith
  with False show ?thesis by (simp add: py_int_def)
qed

lemma verify_past_row_expiry:
  assumes "distinct (map at_token (active_tokens d))" and "row \<in> set (active_tokens d)"
    and "at_token row = token" and "exp_within_row row" and "at_expires_at row < clk 0"
    and "0 \<le> clk 0"
  shows "\<exists>m. verify_jwt_token key clk token d = Inr (d, (None, m))"
proof -
  from unique_row [OF assms(1,2)] assms(3)
  have only: "filter (\<lambda>t. at_token t = token) (active_tokens d) = [row]" by simp
  show ?thesis
  proof (cases "at_revoked row = 1")
    case True
    with only show ?thesis by (simp add: verify_jwt_token_def)
  next
    case False
    show ?thesis
    proof (cases token)
      case (Opaque s)
      with only False show ?thesis by (simp add: verify_jwt_token_def)
    next
      case (Jwt k payload)
      with assms(3,4,5) have "jp_exp payload \<le> clk 0" by (simp add: exp_within_row_def)
      then have past: "real_of_int (py_int (jp_exp payload)) \<le> clk 0"
        using assms(6) by (rule py_int_le)
      show ?thesis
      proof (cases "jwt_decode (clk 0) token key")
        case (Inl e)
        with only False show ?thesis
          by (cases e) (simp_all add: verify_jwt_token_def)
      next
        case (Inr accepted)
        with Jwt past show ?thesis by (simp split: if_splits)
      qed
    qed
  qed
qed

text \<open>
  The expiry of a row is never behind the expiry signed into its token: issuing a token
  writes the same value into both, and a validation whose clock is not behind the one that
  issued the token moves the row's forward. Logout and the sweep change no expiry.
\<close>

lemma generate_exp_within_row:
  assumes "\<forall>t\<in>set (active_tokens d). exp_within_row t"
    and "generate_jwt_token key jti clk steam_id player_name user_agent d = Inr (d', token)"
  shows "\<forall>t\<in>set (active_tokens d'). exp_within_row t"
  using assms
  by (auto simp: generate_jwt_token_def Let_def jwt_encode_def exp_within_row_def
           split: if_splits sum.splits)

lemma verify_exp_within_row:
  assumes "\<forall>t\<in>set (active_tokens d). exp_within_row t"
    and "verify_jwt_token key clk token d = Inr (d', (Some claims, msg))"
    and "\<forall>k payload. token = Jwt k payload \<longrightarrow> jp_exp payload \<le> clk 1 + JWT_EXPIRATION_HOURS * 3600"
  shows "\<forall>t\<in>set (active_tokens d'). exp_within_row t"
proof -
  from verify_accepted [OF assms(2)] obtain payload where
    d': "if jp_steam_id payload \<noteq> []
         then d' = d\<lparr> active_tokens :=
                        map (\<lambda>t. if at_token t = token
                                  then t\<lparr> at_expires_at := clk 1 + JWT_EXPIRATION_HOURS * 3600 \<rparr>
                                  else t) (active_tokens d),
                      active_users :=
                        map (\<lambda>u. if au_steam_id u = jp_steam_id payload
                                  then u\<lparr> au_last_seen := clk 2 \<rparr> else u) (active_users d) \<rparr>
            \<and> claims = payload\<lparr> jp_exp := clk 1 + JWT_EXPIRATION_HOURS * 3600 \<rparr>
         else d' = d \<and> claims = payload"
    by blast
  show ?thesis
  proof (cases "jp_steam_id payload = []")
    case True
    with d' assms(1) show ?thesis by simp
  next
    case False
    with d' assms(1,3) show ?thesis
      by (auto simp: exp_within_row_def split: bearer.splits)
  qed
qed

text \<open>
  \<^verbatim>\<open>verify_jwt_token\<close> renews the expiry and the last-seen only under \<^verbatim>\<open>if steam_id:\<close>. The token
  issued to a login under the empty identity validates in the afternoon and the store stays
  as it was: row expiry 186400, not 150001 + 86400, and last-seen 100003.
\<close>

lemma validation_without_identity_extends_nothing:
  "verify_jwt_token secret afternoon ghost_token ghost_logged_in
     = Inr (ghost_logged_in, (Some ghost_claims, ''Valid''))
 \<and> map at_expires_at (active_tokens ghost_logged_in) = [186400]
 \<and> afternoon 1 + JWT_EXPIRATION_HOURS * 3600 = 236401
 \<and> map au_last_seen (active_users ghost_logged_in) = [100003]"
  by (simp add: verify_jwt_token_def JWT_EXPIRATION_HOURS_def token_example_defs)

text \<open>
  What the renewal does to the store: a successful validation of a token that carries a
  non-empty identity sets the expiry of the token's row to the time of validation plus 24
  hours (and returns that expiry in the claims) and sets the last-seen of every presence
  record of that identity to the time of validation, adding and dropping no row. And a
  token is refused once the expiry held by its row has passed, the row's expiry being never
  behind the expiry signed into the token.
\<close>

lemma validation_slides_expiry:
  assumes "distinct (map at_token (active_tokens d))"
  shows "(\<forall>d' claims msg.
            verify_jwt_token key clk token d = Inr (d', (Some claims, msg))
            \<and> jp_steam_id claims \<noteq> [] \<longrightarrow>
              (\<exists>t\<in>set (active_tokens d'). at_token t = token)
            \<and> (\<forall>t\<in>set (active_tokens d'). at_token t = token
                  \<longrightarrow> at_expires_at t = clk 1 + 24 * 3600)
            \<and> jp_exp claims = clk 1 + 24 * 3600
            \<and> (\<forall>u\<in>set (active_users d'). au_steam_id u = jp_steam_id claims
                  \<longrightarrow> au_last_seen u = clk 2)
            \<and> map at_token (active_tokens d') = map at_token (active_tokens d)
            \<and> map au_steam_id (active_users d') = map au_steam_id (active_users d))
       \<and> (\<forall>row. row \<in> set (active_tokens d) \<and> at_token row = token
                 \<and> exp_within_row row \<and> at_expires_at row < clk 0 \<and> 0 \<le> clk 0 \<longrightarrow>
              (\<exists>m. verify_jwt_token key clk token d = Inr (d, (None, m))))"
proof (intro conjI allI impI)
  fix row
  assume "row \<in> set (active_tokens d) \<and> at_token row = token
      \<and> exp_within_row row \<and> at_expires_at row < clk 0 \<and> 0 \<le> clk 0"
  then have "row \<in> set (active_tokens d)" and "at_token row = token"
    and "exp_within_row row" and "at_expires_at row < clk 0" and "0 \<le> clk 0"
    by simp_all
  with assms show "\<exists>m. verify_jwt_token key clk token d = Inr (d, (None, m))"
    by (rule verify_past_row_expiry)
next
  fix d' claims msg
  assume ok: "verify_jwt_token key clk token d = Inr (d', (Some claims, msg))
      \<and> jp_steam_id claims \<noteq> []"
  from ok verify_accepted [of key clk token d d' claims msg] obtain payload row where
    d': "if jp_steam_id payload \<noteq> []
         then d' = d\<lparr> active_tokens :=
                        map (\<lambda>t. if at_token t = token
                                  then t\<lparr> at_expires_at := clk 1 + JWT_EXPIRATION_HOURS * 3600 \<rparr>
                                  else t) (active_tokens d),
                      active_users :=
                        map (\<lambda>u. if au_steam_id u = jp_steam_id payload
                                  then u\<lparr> au_last_seen := clk 2 \<rparr> else u) (active_users d) \<rparr>
            \<and> claims = payload\<lparr> jp_exp := clk 1 + JWT_EXPIRATION_HOURS * 3600 \<rparr>
         else d' = d \<and> claims = payload"
    and only: "filter (\<lambda>t. at_token t = token) (active_tokens d) = [row]"
    by blast
  from ok d' have id: "jp_steam_id payload \<noteq> []"
    by (cases "jp_steam_id payload = []") simp_all
  with d' have
    toks: "active_tokens d' =
             map (\<lambda>t. if at_token t = token
                       then t\<lparr> at_expires_at := clk 1 + JWT_EXPIRATION_HOURS * 3600 \<rparr>
                       else t) (active_tokens d)" and
    usrs: "active_users d' =
             map (\<lambda>u. if au_steam_id u = jp_steam_id payload
                       then u\<lparr> au_last_seen := clk 2 \<rparr> else u) (active_users d)" and
    cl: "claims = payload\<lparr> jp_exp := clk 1 + JWT_EXPIRATION_HOURS * 3600 \<rparr>"
    by simp_all
  have "row \<in> set (filter (\<lambda>t. at_token t = token) (active_tokens d))"
    unfolding only by simp
  then have row: "row \<in> set (active_tokens d)" "at_token row = token" by simp_all
  then have "row\<lparr> at_expires_at := clk 1 + JWT_EXPIRATION_HOURS * 3600 \<rparr> \<in> set (active_tokens d')"
    unfolding toks by force
  then show "\<exists>t\<in>set (active_tokens d'). at_token t = token"
    using row(2) by (intro bexI) simp_all
  show "\<forall>t\<in>set (active_tokens d'). at_token t = token
          \<longrightarrow> at_expires_at t = clk 1 + 24 * 3600"
  proof (intro ballI impI)
    fix t
    assume tin: "t \<in> set (active_tokens d')" and tok: "at_token t = token"
    from tin have "t \<in> (\<lambda>t. if at_token t = token
                            then t\<lparr> at_expires_at := clk 1 + JWT_EXPIRATION_HOURS * 3600 \<rparr>
                            else t) ` set (active_tokens d)"
      unfolding toks by (simp only: set_map)
    then obtain t0 where
      t: "t = (if at_token t0 = token
               then t0\<lparr> at_expires_at := clk 1 + JWT_EXPIRATION_HOURS * 3600 \<rparr> else t0)"
      by (rule imageE)
    show "at_expires_at t = clk 1 + 24 * 3600"
    proof (cases "at_token t0 = token")
      case True
      with t show ?thesis by (simp add: JWT_EXPIRATION_HOURS_def)
    next
      case False
      with t tok show ?thesis by simp
    qed
  qed
  show "jp_exp claims = clk 1 + 24 * 3600"
    unfolding cl by (simp add: JWT_EXPIRATION_HOURS_def)
  have same_id: "jp_steam_id claims = jp_steam_id payload"
    unfolding cl by simp
  show "\<forall>u\<in>set (active_users d'). au_steam_id u = jp_steam_id claims
          \<longrightarrow> au_last_seen u = clk 2"
  proof (intro ballI impI)
    fix u
    assume uin: "u \<in> set (active_users d')" and who: "au_steam_id u = jp_steam_id claims"
    from uin have "u \<in> (\<lambda>u. if au_steam_id u = jp_steam_id payload
                            then u\<lparr> au_last_seen := clk 2 \<rparr> else u) ` set (active_users d)"
      unfolding usrs by (simp only: set_map)
    then obtain u0 where
      u: "u = (if au_steam_id u0 = jp_steam_id payload then u0\<lparr> au_last_seen := clk 2 \<rparr> else u0)"
      by (rule imageE)
    show "au_last_seen u = clk 2"
    proof (cases "au_steam_id u0 = jp_steam_id payload")
      case True
      with u show ?thesis by simp
    next
      case False
      with u who same_id show ?thesis by simp
    qed
  qed
  show "map at_token (active_tokens d') = map at_token (active_tokens d)"
    unfolding toks by (rule map_same_key) simp
  show "map au_steam_id (active_users d') = map au_steam_id (active_users d)"
    unfolding usrs by (rule map_same_key) simp
qed

lemma validation_slides_expiry_at_noon_login:
  "verify_jwt_token secret afternoon ann_token ann_logged_in
     = Inr (ann_logged_in\<lparr>
              active_tokens := [ann_row\<lparr> at_expires_at := 236401 \<rparr>],
              active_users :=
                [\<lparr> au_steam_id = ''steam-ann'', au_player_name = ''Ann'', au_last_seen = 150002 \<rparr>] \<rparr>,
            (Some (ann_claims\<lparr> jp_exp := 236401 \<rparr>), ''Valid''))
 \<and> (\<exists>t\<in>set (active_tokens (fst (projr (verify_jwt_token secret afternoon ann_token ann_logged_in)))).
        at_token t = ann_token \<and> at_expires_at t = afternoon 1 + 24 * 3600)
 \<and> (\<exists>m. verify_jwt_token secret next_week ann_token ann_logged_in = Inr (ann_logged_in, (None, m)))"
proof -
  have key: "distinct (map at_token (active_tokens ann_logged_in))"
    by (simp add: ann_logged_in_def empty_db_def)
  note slides = validation_slides_expiry [OF key]
  let ?after = "ann_logged_in\<lparr>
              active_tokens := [ann_row\<lparr> at_expires_at := 236401 \<rparr>],
              active_users :=
                [\<lparr> au_steam_id = ''steam-ann'', au_player_name = ''Ann'', au_last_seen = 150002 \<rparr>] \<rparr>"
  have ok: "verify_jwt_token secret afternoon ann_token ann_logged_in
     = Inr (?after, (Some (ann_claims\<lparr> jp_exp := 236401 \<rparr>), ''Valid''))"
    by (simp add: verify_jwt_token_def JWT_EXPIRATION_HOURS_def Let_def token_example_defs)
  have id: "jp_steam_id (ann_claims\<lparr> jp_exp := 236401 \<rparr>) \<noteq> []"
    by (simp add: ann_claims_def)
  from slides [of secret afternoon ann_token, THEN conjunct1, rule_format, OF conjI, OF ok id]
  have "(\<exists>t\<in>set (active_tokens ?after). at_token t = ann_token)
      \<and> (\<forall>t\<in>set (active_tokens ?after). at_token t = ann_token
            \<longrightarrow> at_expires_at t = afternoon 1 + 24 * 3600)"
    by blast
  then have moved: "\<exists>t\<in>set (active_tokens ?after).
      at_token t = ann_token \<and> at_expires_at t = afternoon 1 + 24 * 3600"
    by blast
  have "ann_row \<in> set (active_tokens ann_logged_in) \<and> at_token ann_row = ann_token
      \<and> exp_within_row ann_row \<and> at_expires_at ann_row < next_week 0 \<and> 0 \<le> next_week 0"
    by (simp add: exp_within_row_def token_example_defs)
  with slides [of secret next_week ann_token, THEN conjunct2, rule_format, of ann_row]
  have late: "\<exists>m. verify_jwt_token secret next_week ann_token ann_logged_in
      = Inr (ann_logged_in, (None, m))"
    by blast
  from ok moved late show ?thesis by simp
qed

text \<open>
  The renewal does not reach the check. \<^verbatim>\<open>jwt.decode\<close> judges the expiry signed into the
  token, which no validation changes: a token that has validated is refused as expired at
  every later time at or after its signed expiry, whatever expiry its row holds by then.
\<close>

lemma filter_same_key:
  assumes "\<And>x. f (g x) = f x"
  shows "filter (\<lambda>t. f t = k) (map g xs) = map g (filter (\<lambda>t. f t = k) xs)"
  by (induction xs) (simp_all add: assms)

lemma validated_token_refused_at_signed_expiry:
  assumes "verify_jwt_token key clk (Jwt k payload) d = Inr (d', (Some claims, msg))"
    and "real_of_int (py_int (jp_exp payload)) \<le> clk' 0"
    and "real_of_int (py_int (jp_iat payload)) \<le> clk' 0"
  shows "verify_jwt_token key clk' (Jwt k payload) d' = Inr (d', (None, ''Token has expired''))"
proof -
  let ?token = "Jwt k payload"
  from verify_accepted [OF assms(1)] obtain accepted row where
    dec: "jwt_decode (clk 0) ?token key = Inr accepted" and
    d': "if jp_steam_id accepted \<noteq> []
         then d' = d\<lparr> active_tokens :=
                        map (\<lambda>t. if at_token t = ?token
                                  then t\<lparr> at_expires_at := clk 1 + JWT_EXPIRATION_HOURS * 3600 \<rparr>
                                  else t) (active_tokens d),
                      active_users :=
                        map (\<lambda>u. if au_steam_id u = jp_steam_id accepted
                                  then u\<lparr> au_last_seen := clk 2 \<rparr> else u) (active_users d) \<rparr>
            \<and> claims = accepted\<lparr> jp_exp := clk 1 + JWT_EXPIRATION_HOURS * 3600 \<rparr>
         else d' = d \<and> claims = accepted" and
    only: "filter (\<lambda>t. at_token t = ?token) (active_tokens d) = [row]" and
    live: "at_revoked row \<noteq> 1"
    by blast
  from dec have key: "k = key" by (simp split: if_splits)
  with assms(2,3) have late: "jwt_decode (clk' 0) ?token key = Inl ExpiredSignatureError"
    by simp
  have "\<exists>row'. filter (\<lambda>t. at_token t = ?token) (active_tokens d') = [row']
      \<and> at_revoked row' \<noteq> 1"
  proof (cases "jp_steam_id accepted = []")
    case True
    with d' only live show ?thesis by simp
  next
    case False
    with d' have "active_tokens d' =
        map (\<lambda>t. if at_token t = ?token
                  then t\<lparr> at_expires_at := clk 1 + JWT_EXPIRATION_HOURS * 3600 \<rparr>
                  else t) (active_tokens d)"
      by simp
    moreover
    have "filter (\<lambda>t. at_token t = ?token)
            (map (\<lambda>t. if at_token t = ?token
                       then t\<lparr> at_expires_at := clk 1 + JWT_EXPIRATION_HOURS * 3600 \<rparr>
                       else t) (active_tokens d)) =
          map (\<lambda>t. if at_token t = ?token
                    then t\<lparr> at_expires_at := clk 1 + JWT_EXPIRATION_HOURS * 3600 \<rparr>
                    else t) (filter (\<lambda>t. at_token t = ?token) (active_tokens d))"
      by (rule filter_same_key) simp
    ultimately
    have "filter (\<lambda>t. at_token t = ?token) (active_tokens d') =
        [if at_token row = ?token
         then row\<lparr> at_expires_at := clk 1 + JWT_EXPIRATION_HOURS * 3600 \<rparr> else row]"
      by (simp only: only list.map)
    with live show ?thesis by (cases "at_token row = ?token") simp_all
  qed
  then obtain row' where "filter (\<lambda>t. at_token t = ?token) (active_tokens d') = [row']"
    and "at_revoked row' \<noteq> 1"
    by blast
  with late show ?thesis by (simp add: verify_jwt_token_def)
qed

text \<open>
  C4. A successful validation before expiry should extend the token's expiry to the time of
  validation plus 24 hours and set the identity's last-seen, and the token should stop
  validating only once that extended expiry has passed. The code renews the expiry of the
  token's row ("Renew token expiration") and the \<^verbatim>\<open>exp\<close> it returns, and goes on refusing the
  token by the expiry signed into it at login. Ann logs in at noon (signed expiry 186400)
  and validates in the afternoon, at 150000: her row's expiry becomes 150001 + 86400 =
  236401 and her last-seen 150002. At 190000, well before 236401, the same token is
  refused with "Token has expired", its row still saying 236401.
\<close>

theorem renewed_token_expires_at_signed_expiry:
  "verify_jwt_token secret afternoon ann_token ann_logged_in
     = Inr (ann_logged_in\<lparr>
              active_tokens := [ann_row\<lparr> at_expires_at := 236401 \<rparr>],
              active_users :=
                [\<lparr> au_steam_id = ''steam-ann'', au_player_name = ''Ann'', au_last_seen = 150002 \<rparr>] \<rparr>,
            (Some (ann_claims\<lparr> jp_exp := 236401 \<rparr>), ''Valid''))
 \<and> verify_jwt_token secret (\<lambda>n. 190000 + real n) ann_token
       (ann_logged_in\<lparr>
          active_tokens := [ann_row\<lparr> at_expires_at := 236401 \<rparr>],
          active_users :=
            [\<lparr> au_steam_id = ''steam-ann'', au_player_name = ''Ann'', au_last_seen = 150002 \<rparr>] \<rparr>)
     = Inr (ann_logged_in\<lparr>
              active_tokens := [ann_row\<lparr> at_expires_at := 236401 \<rparr>],
              active_users :=
                [\<lparr> au_steam_id = ''steam-ann'', au_player_name = ''Ann'', au_last_seen = 150002 \<rparr>] \<rparr>,
            (None, ''Token has expired''))"
  by (simp add: verify_jwt_token_def JWT_EXPIRATION_HOURS_def Let_def py_int_def
        token_example_defs)

section \<open>Sweep\<close>

lemma bob_login:
  "generate_jwt_token secret ''jti-bob'' last_night ''steam-bob'' ''Bob'' (Some ''RimWorld'')
     ann_logged_in = Inr (two_logins, bob_token)"
  by (simp add: generate_jwt_token_def jwt_encode_def JWT_EXPIRATION_HOURS_def Let_def
        token_example_defs sweep_example_defs)

text \<open>The loop over the inactive users removes the tokens and the records of their identities.\<close>

lemma remove_inactive_filter:
  "remove_inactive us (tokens, users)
     = (filter (\<lambda>t. at_steam_id t \<notin> au_steam_id ` set us) tokens,
        filter (\<lambda>u. au_steam_id u \<notin> au_steam_id ` set us) users)"
proof (induction us arbitrary: tokens users)
  case Nil
  then show ?case by simp
next
  case (Cons a us)
  have "filter (\<lambda>t. at_steam_id t \<notin> au_steam_id ` set us)
          (filter (\<lambda>t. at_steam_id t \<noteq> au_steam_id a) tokens)
        = filter (\<lambda>t. at_steam_id t \<notin> au_steam_id ` set (a # us)) tokens"
    by (induction tokens) auto
  moreover
  have "filter (\<lambda>u. au_steam_id u \<notin> au_steam_id ` set us)
          (filter (\<lambda>u. au_steam_id u \<noteq> au_steam_id a) users)
        = filter (\<lambda>u. au_steam_id u \<notin> au_steam_id ` set (a # us)) users"
    by (induction users) auto
  ultimately show ?case by (simp add: Cons.IH)
qed

text \<open>The two sweep functions hold the same code; the admin call also counts.\<close>

lemma cleanup_pass_manual:
  "cleanup_expired_tokens_pass clk d = fst (manual_cleanup clk d)"
  by (simp add: cleanup_expired_tokens_pass_def manual_cleanup_def Let_def)

lemma manual_cleanup_tokens:
  "active_tokens (fst (manual_cleanup clk d))
     = filter (\<lambda>t. at_steam_id t \<notin>
                     au_steam_id ` set (filter (\<lambda>u. au_last_seen u < clk 0 - 24 * 3600) (active_users d)))
         (filter (\<lambda>t. \<not> at_expires_at t < clk 0) (active_tokens d))"
  by (simp add: manual_cleanup_def Let_def remove_inactive_filter)

lemma manual_cleanup_users:
  "active_users (fst (manual_cleanup clk d))
     = filter (\<lambda>u. au_steam_id u \<notin>
                     au_steam_id ` set (filter (\<lambda>u. au_last_seen u < clk 0 - 24 * 3600) (active_users d)))
         (active_users d)"
  by (simp add: manual_cleanup_def Let_def remove_inactive_filter)

lemma manual_cleanup_sessions:
  "user_sessions (fst (manual_cleanup clk d))
     = map (\<lambda>s. if us_last_activity s < clk 0 - 2 * 3600 \<and> us_is_active s
                 then s\<lparr> us_session_end := Some (clk 0), us_is_active := False \<rparr>
                 else s) (user_sessions d)"
  by (simp add: manual_cleanup_def Let_def)

text \<open>
  Sessions are opened active and without an end, and closed (by logout or by the sweep)
  with an end: a session that is not active has its end set, in every store the server
  builds.
\<close>

lemma generate_closed_sessions_ended:
  assumes "\<forall>s\<in>set (user_sessions d). closed_session_ended s"
    and "generate_jwt_token key jti clk steam_id player_name user_agent d = Inr (d', token)"
  shows "\<forall>s\<in>set (user_sessions d'). closed_session_ended s"
  using assms
  by (auto simp: generate_jwt_token_def Let_def closed_session_ended_def
           split: if_splits sum.splits)

lemma logout_closed_sessions_ended:
  assumes "\<forall>s\<in>set (user_sessions d). closed_session_ended s"
  shows "\<forall>s\<in>set (user_sessions (logout clk token usr d)). closed_session_ended s"
  using assms by (auto simp: logout_def Let_def closed_session_ended_def)

lemma cleanup_closed_sessions_ended:
  assumes "\<forall>s\<in>set (user_sessions d). closed_session_ended s"
  shows "\<forall>s\<in>set (user_sessions (fst (manual_cleanup clk d))). closed_session_ended s"
  using assms by (auto simp: manual_cleanup_sessions closed_session_ended_def)

text \<open>
  C7. After one pass of the sweep (the admin call and a turn of the background loop do the
  same): no token row whose expiry has passed is left; every session idle for more than 2
  hours is inactive with its end set (the sessions this pass closes get the time of the
  pass as their end, and no session is dropped); every presence record idle for more than
  24 hours is gone, and with it every token row of its identity.
\<close>

theorem sweep_pass:
  assumes "\<forall>s\<in>set (user_sessions d). closed_session_ended s"
  shows "cleanup_expired_tokens_pass clk d = fst (manual_cleanup clk d)
       \<and> (\<forall>t\<in>set (active_tokens (fst (manual_cleanup clk d))). \<not> at_expires_at t < clk 0)
       \<and> (\<forall>s\<in>set (user_sessions (fst (manual_cleanup clk d))).
             us_last_activity s < clk 0 - 2 * 3600
             \<longrightarrow> \<not> us_is_active s \<and> us_session_end s \<noteq> None)
       \<and> user_sessions (fst (manual_cleanup clk d))
           = map (\<lambda>s. if us_last_activity s < clk 0 - 2 * 3600 \<and> us_is_active s
                       then s\<lparr> us_session_end := Some (clk 0), us_is_active := False \<rparr>
                       else s) (user_sessions d)
       \<and> (\<forall>u\<in>set (active_users d). au_last_seen u < clk 0 - 24 * 3600 \<longrightarrow>
             (\<forall>u'\<in>set (active_users (fst (manual_cleanup clk d))). au_steam_id u' \<noteq> au_steam_id u)
           \<and> (\<forall>t\<in>set (active_tokens (fst (manual_cleanup clk d))). at_steam_id t \<noteq> au_steam_id u))
       \<and> (\<forall>u\<in>set (active_users (fst (manual_cleanup clk d))). \<not> au_last_seen u < clk 0 - 24 * 3600)"
proof (intro conjI)
  show "cleanup_expired_tokens_pass clk d = fst (manual_cleanup clk d)"
    by (rule cleanup_pass_manual)
  show "\<forall>t\<in>set (active_tokens (fst (manual_cleanup clk d))). \<not> at_expires_at t < clk 0"
    unfolding manual_cleanup_tokens by simp
  show "user_sessions (fst (manual_cleanup clk d))
           = map (\<lambda>s. if us_last_activity s < clk 0 - 2 * 3600 \<and> us_is_active s
                       then s\<lparr> us_session_end := Some (clk 0), us_is_active := False \<rparr>
                       else s) (user_sessions d)"
    by (rule manual_cleanup_sessions)
  show "\<forall>s\<in>set (user_sessions (fst (manual_cleanup clk d))).
             us_last_activity s < clk 0 - 2 * 3600
             \<longrightarrow> \<not> us_is_active s \<and> us_session_end s \<noteq> None"
  proof (intro ballI impI)
    fix s
    assume sin: "s \<in> set (user_sessions (fst (manual_cleanup clk d)))"
      and idle: "us_last_activity s < clk 0 - 2 * 3600"
    from sin have "s \<in> (\<lambda>s. if us_last_activity s < clk 0 - 2 * 3600 \<and> us_is_active s
                 then s\<lparr> us_session_end := Some (clk 0), us_is_active := False \<rparr>
                 else s) ` set (user_sessions d)"
      unfolding manual_cleanup_sessions by (simp only: set_map)
    then obtain s0 where s0: "s0 \<in> set (user_sessions d)" and
      s: "s = (if us_last_activity s0 < clk 0 - 2 * 3600 \<and> us_is_active s0
               then s0\<lparr> us_session_end := Some (clk 0), us_is_active := False \<rparr> else s0)"
      by (rule imageE)
    from assms s0 have ended: "us_is_active s0 \<or> us_session_end s0 \<noteq> None"
      by (simp add: closed_session_ended_def)
    show "\<not> us_is_active s \<and> us_session_end s \<noteq> None"
    proof (cases "us_last_activity s0 < clk 0 - 2 * 3600 \<and> us_is_active s0")
      case True
      with s show ?thesis by simp
    next
      case False
      from s have same: "s = s0" unfolding if_not_P [OF False] .
      with idle False have "\<not> us_is_active s0" by simp
      with ended same show ?thesis by simp
    qed
  qed
  show "\<forall>u\<in>set (active_users d). au_last_seen u < clk 0 - 24 * 3600 \<longrightarrow>
             (\<forall>u'\<in>set (active_users (fst (manual_cleanup clk d))). au_steam_id u' \<noteq> au_steam_id u)
           \<and> (\<forall>t\<in>set (active_tokens (fst (manual_cleanup clk d))). at_steam_id t \<noteq> au_steam_id u)"
  proof (intro ballI impI)
    fix u
    assume "u \<in> set (active_users d)" and "au_last_seen u < clk 0 - 24 * 3600"
    then have gone: "au_steam_id u \<in>
        au_steam_id ` set (filter (\<lambda>u. au_last_seen u < clk 0 - 24 * 3600) (active_users d))"
      by simp
    have a: "\<forall>u'\<in>set (active_users (fst (manual_cleanup clk d))). au_steam_id u' \<noteq> au_steam_id u"
      unfolding manual_cleanup_users using gone by auto
    have b: "\<forall>t\<in>set (active_tokens (fst (manual_cleanup clk d))). at_steam_id t \<noteq> au_steam_id u"
      unfolding manual_cleanup_tokens using gone by auto
    from a b
    show "(\<forall>u'\<in>set (active_users (fst (manual_cleanup clk d))). au_steam_id u' \<noteq> au_steam_id u)
        \<and> (\<forall>t\<in>set (active_tokens (fst (manual_cleanup clk d))). at_steam_id t \<noteq> au_steam_id u)"
      by (rule conjI)
  qed
  show "\<forall>u\<in>set (active_users (fst (manual_cleanup clk d))). \<not> au_last_seen u < clk 0 - 24 * 3600"
  proof (intro ballI)
    fix u
    assume "u \<in> set (active_users (fst (manual_cleanup clk d)))"
    then have "u \<in> set (active_users d)" and
      "au_steam_id u \<notin>
         au_steam_id ` set (filter (\<lambda>u. au_last_seen u < clk 0 - 24 * 3600) (active_users d))"
      unfolding manual_cleanup_users by simp_all
    then show "\<not> au_last_seen u < clk 0 - 24 * 3600" by force
  qed
qed

theorem sweep_pass_witness:
  "manual_cleanup next_week two_logins = (swept, 1)
 \<and> cleanup_expired_tokens_pass next_week two_logins = swept"
proof -
  have inv: "\<forall>s\<in>set (user_sessions two_logins). closed_session_ended s"
    by (simp add: closed_session_ended_def two_logins_def empty_db_def ann_session_def
          bob_session_def)
  have run: "manual_cleanup next_week two_logins = (swept, 1)"
    by (simp add: manual_cleanup_def Let_def token_example_defs sweep_example_defs)
  from sweep_pass [OF inv, of next_week]
  have "cleanup_expired_tokens_pass next_week two_logins = fst (manual_cleanup next_week two_logins)"
    by (rule conjunct1)
  with run show ?thesis by simp
qed

end
